theory Spec2Isabelle
  imports Main
begin

section \<open>The book catalogue: records, the JSON backing store and the server actions\<close>

text \<open>
  The persistence layer of the application reads the whole collection from
  \<^verbatim>\<open>app/data/books.json\<close>, changes it in memory and writes the whole collection
  back.  The development below embeds the types of \<^verbatim>\<open>types/book.ts\<close>, the two
  helpers \<^verbatim>\<open>readBooksFromFile\<close> and \<^verbatim>\<open>writeBooksToFile\<close> and the exported
  actions of \<^verbatim>\<open>lib/actions/bookActions.ts\<close>.  The parts of the JavaScript runtime
  the helpers call (\<^verbatim>\<open>new Date\<close>, \<^verbatim>\<open>toISOString\<close>, \<^verbatim>\<open>split\<close>,
  \<^verbatim>\<open>Number.prototype.toString\<close>, the treatment of \<^verbatim>\<open>undefined\<close> by
  \<^verbatim>\<open>JSON.stringify\<close>) are embedded as ECMAScript defines them.
\<close>

subsection \<open>Decimal digits\<close>

definition digit :: "nat \<Rightarrow> char" where
  "digit n = ''0123456789'' ! (n mod 10)"

definition digit_val :: "char \<Rightarrow> nat option" where
  "digit_val c =
     (let n = (of_char c :: nat) in if 48 \<le> n \<and> n \<le> 57 then Some (n - 48) else None)"

definition is_digit :: "char \<Rightarrow> bool" where
  "is_digit c = (digit_val c \<noteq> None)"

text \<open>\<open>pad k n\<close>: the last \<open>k\<close> decimal digits of \<open>n\<close>, with leading zeros.\<close>

fun pad :: "nat \<Rightarrow> nat \<Rightarrow> string" where
  "pad 0 n = []"
| "pad (Suc k) n = pad k (n div 10) @ [digit n]"

text \<open>The value of a string of decimal digits; \<open>None\<close> when a character is not a digit.\<close>

fun digits_acc :: "nat \<Rightarrow> string \<Rightarrow> nat option" where
  "digits_acc a [] = Some a"
| "digits_acc a (c # cs) =
     (case digit_val c of None \<Rightarrow> None | Some v \<Rightarrow> digits_acc (10 * a + v) cs)"

definition digits_val :: "string \<Rightarrow> nat option" where
  "digits_val s = (if s = [] then None else digits_acc 0 s)"

text \<open>\<^verbatim>\<open>Number.prototype.toString\<close> on a non-negative integer: its decimal numeral.\<close>

fun toString :: "nat \<Rightarrow> string" where
  "toString n = (if n < 10 then [digit n] else toString (n div 10) @ [digit n])"

declare toString.simps [simp del]

subsection \<open>JavaScript dates\<close>

text \<open>
  A \<^verbatim>\<open>Date\<close> object holds a time value: a whole number of milliseconds since
  1970-01-01T00:00:00Z, or \<^verbatim>\<open>NaN\<close> (an invalid date).  The time value of a
  \<^verbatim>\<open>Date\<close> built from a value goes through \<^verbatim>\<open>TimeClip\<close>, so that it is at most
  \<open>8.64 * 10^15\<close> in absolute value.
\<close>

datatype Date = InvalidDate | TimeValue int

definition msPerDay :: int where
  "msPerDay = 86400000"

definition maxTime :: int where
  "maxTime = 8640000000000000"

definition TimeClip :: "Date \<Rightarrow> Date" where
  "TimeClip d =
     (case d of
        InvalidDate \<Rightarrow> InvalidDate
      | TimeValue t \<Rightarrow> if \<bar>t\<bar> > maxTime then InvalidDate else TimeValue t)"

definition Day :: "int \<Rightarrow> int" where
  "Day t = t div msPerDay"

definition TimeWithinDay :: "int \<Rightarrow> int" where
  "TimeWithinDay t = t mod msPerDay"

definition DaysInYear :: "int \<Rightarrow> int" where
  "DaysInYear y =
     (if y mod 4 \<noteq> 0 then 365
      else if y mod 100 \<noteq> 0 then 366
      else if y mod 400 \<noteq> 0 then 365
      else 366)"

definition DayFromYear :: "int \<Rightarrow> int" where
  "DayFromYear y =
     365 * (y - 1970) + (y - 1969) div 4 - (y - 1901) div 100 + (y - 1601) div 400"

text \<open>
  ECMAScript defines \<^verbatim>\<open>YearFromTime(t)\<close> as the largest \<open>y\<close> with
  \<open>DayFromYear y \<le> Day t\<close>.  It is computed here from the mean length of a year
  (146097 days in 400 years), corrected by one year where the estimate is off; the
  lemma \<open>YearFromDay_bounds\<close> shows that the result is the year of the definition.
\<close>

definition YearFromDay :: "int \<Rightarrow> int" where
  "YearFromDay d =
     (let y = 1970 + (400 * d) div 146097
      in if d < DayFromYear y then y - 1
         else if DayFromYear (y + 1) \<le> d then y + 1
         else y)"

definition YearFromTime :: "int \<Rightarrow> int" where
  "YearFromTime t = YearFromDay (Day t)"

definition InLeapYear :: "int \<Rightarrow> bool" where
  "InLeapYear t = (DaysInYear (YearFromTime t) = 366)"

definition DayWithinYear :: "int \<Rightarrow> int" where
  "DayWithinYear t = Day t - DayFromYear (YearFromTime t)"

text \<open>The day within the year on which month \<open>m\<close> (0 = January) begins.\<close>

definition monthStart :: "bool \<Rightarrow> int \<Rightarrow> int" where
  "monthStart leap m =
     (let l = (if leap then 1 else 0)
      in if m = 0 then 0 else if m = 1 then 31
         else if m = 2 then 59 + l else if m = 3 then 90 + l
         else if m = 4 then 120 + l else if m = 5 then 151 + l
         else if m = 6 then 181 + l else if m = 7 then 212 + l
         else if m = 8 then 243 + l else if m = 9 then 273 + l
         else if m = 10 then 304 + l else if m = 11 then 334 + l
         else 365 + l)"

text \<open>The month (0..11) of a day within a year, by the table of ECMAScript.\<close>

definition MonthFromDay :: "bool \<Rightarrow> int \<Rightarrow> int" where
  "MonthFromDay l d =
     (if d < monthStart l 1 then 0 else if d < monthStart l 2 then 1
      else if d < monthStart l 3 then 2 else if d < monthStart l 4 then 3
      else if d < monthStart l 5 then 4 else if d < monthStart l 6 then 5
      else if d < monthStart l 7 then 6 else if d < monthStart l 8 then 7
      else if d < monthStart l 9 then 8 else if d < monthStart l 10 then 9
      else if d < monthStart l 11 then 10 else 11)"

definition MonthFromTime :: "int \<Rightarrow> int" where
  "MonthFromTime t = MonthFromDay (InLeapYear t) (DayWithinYear t)"

definition DateFromTime :: "int \<Rightarrow> int" where
  "DateFromTime t = DayWithinYear t - monthStart (InLeapYear t) (MonthFromTime t) + 1"

definition HourFromTime :: "int \<Rightarrow> int" where
  "HourFromTime t = (TimeWithinDay t div 3600000) mod 24"

definition MinFromTime :: "int \<Rightarrow> int" where
  "MinFromTime t = (TimeWithinDay t div 60000) mod 60"

definition SecFromTime :: "int \<Rightarrow> int" where
  "SecFromTime t = (TimeWithinDay t div 1000) mod 60"

definition msFromTime :: "int \<Rightarrow> int" where
  "msFromTime t = TimeWithinDay t mod 1000"

text \<open>
  The year of an ISO string: four digits for the years 0 to 9999, otherwise a sign and
  six digits (the expanded years of ECMAScript).
\<close>

definition isoYear :: "int \<Rightarrow> string" where
  "isoYear y =
     (if 0 \<le> y \<and> y \<le> 9999 then pad 4 (nat y)
      else (if y < 0 then ''-'' else ''+'') @ pad 6 (nat \<bar>y\<bar>))"

definition isoDatePart :: "int \<Rightarrow> string" where
  "isoDatePart t =
     isoYear (YearFromTime t) @ ''-'' @ pad 2 (nat (MonthFromTime t + 1)) @ ''-''
       @ pad 2 (nat (DateFromTime t))"

definition isoTimePart :: "int \<Rightarrow> string" where
  "isoTimePart t =
     pad 2 (nat (HourFromTime t)) @ '':'' @ pad 2 (nat (MinFromTime t)) @ '':''
       @ pad 2 (nat (SecFromTime t)) @ ''.'' @ pad 3 (nat (msFromTime t)) @ ''Z''"

text \<open>\<^verbatim>\<open>toISOString\<close> throws a RangeError on an invalid date: the result \<open>None\<close>.\<close>

definition toISOString :: "Date \<Rightarrow> string option" where
  "toISOString d =
     (case d of
        InvalidDate \<Rightarrow> None
      | TimeValue t \<Rightarrow> Some (isoDatePart t @ ''T'' @ isoTimePart t))"

text \<open>\<^verbatim>\<open>s.split("T")[0]\<close>: the part of \<open>s\<close> before its first \<^verbatim>\<open>T\<close>.\<close>

definition split_T_0 :: "string \<Rightarrow> string" where
  "split_T_0 s = takeWhile (\<lambda>c. c \<noteq> CHR ''T'') s"

subsection \<open>Parsing date strings\<close>

text \<open>
  \<^verbatim>\<open>Date.parse\<close> is fixed by ECMAScript on the date-time string format; on any other
  string an implementation may use heuristics of its own.  The embedding fixes the
  result on three forms of the format, when the fields name an existing day and time:
  \<^verbatim>\<open>YYYY-MM-DD\<close>, \<^verbatim>\<open>+YYYYYY-MM-DD\<close> / \<^verbatim>\<open>-YYYYYY-MM-DD\<close> (both read as UTC midnight)
  and \<^verbatim>\<open>YYYY-MM-DDTHH:mm:ss.sssZ\<close>.  Every other string is handed to the parameter
  \<open>fb\<close>, which stands for the rest of the implementation's parser.
\<close>

definition DaysInMonth :: "int \<Rightarrow> int \<Rightarrow> int" where
  "DaysInMonth y m =
     monthStart (DaysInYear y = 366) (m + 1) - monthStart (DaysInYear y = 366) m"

text \<open>\<^verbatim>\<open>MakeDay\<close> for a month \<open>m\<close> in 0..11 and a day \<open>dt\<close> of the month.\<close>

definition MakeDay :: "int \<Rightarrow> int \<Rightarrow> int \<Rightarrow> int" where
  "MakeDay y m dt = DayFromYear y + monthStart (DaysInYear y = 366) m + dt - 1"

definition MakeTime :: "int \<Rightarrow> int \<Rightarrow> int \<Rightarrow> int \<Rightarrow> int" where
  "MakeTime h mi s ms = h * 3600000 + mi * 60000 + s * 1000 + ms"

definition MakeDate :: "int \<Rightarrow> int \<Rightarrow> int" where
  "MakeDate day time = day * msPerDay + time"

text \<open>The year, month (1..12) and day of a date-only string, when they name a day.\<close>

definition validYMD :: "int \<Rightarrow> nat \<Rightarrow> nat \<Rightarrow> bool" where
  "validYMD y m d =
     (1 \<le> m \<and> m \<le> 12 \<and> 1 \<le> d \<and> int d \<le> DaysInMonth y (int m - 1))"

definition parseYear :: "string \<Rightarrow> int option" where
  "parseYear s =
     (if length s = 4 then map_option int (digits_val s)
      else if length s = 7 \<and> hd s = CHR ''+'' then map_option int (digits_val (tl s))
      else if length s = 7 \<and> hd s = CHR ''-'' then
        (case digits_val (tl s) of
           None \<Rightarrow> None
         | Some n \<Rightarrow> if n = 0 then None else Some (- int n))
      else None)"

definition parseMonthDay :: "string \<Rightarrow> (nat \<times> nat) option" where
  "parseMonthDay s =
     (if length s = 6 \<and> s ! 0 = CHR ''-'' \<and> s ! 3 = CHR ''-'' then
        (case (digits_val (take 2 (drop 1 s)), digits_val (drop 4 s)) of
           (Some m, Some d) \<Rightarrow> Some (m, d)
         | _ \<Rightarrow> None)
      else None)"

definition parseDateOnly :: "string \<Rightarrow> int option" where
  "parseDateOnly s =
     (let n = length s - 6
      in case (parseYear (take n s), parseMonthDay (drop n s)) of
           (Some y, Some (m, d)) \<Rightarrow>
             if validYMD y m d then Some (MakeDay y (int m - 1) (int d)) else None
         | _ \<Rightarrow> None)"

definition parseTimeZ :: "string \<Rightarrow> int option" where
  "parseTimeZ s =
     (if length s = 14 \<and> s ! 0 = CHR ''T'' \<and> s ! 3 = CHR '':'' \<and> s ! 6 = CHR '':''
         \<and> s ! 9 = CHR ''.'' \<and> s ! 13 = CHR ''Z'' then
        (case (digits_val (take 2 (drop 1 s)), digits_val (take 2 (drop 4 s)),
               digits_val (take 2 (drop 7 s)), digits_val (take 3 (drop 10 s))) of
           (Some h, Some mi, Some sec, Some ms) \<Rightarrow>
             if h \<le> 23 \<and> mi \<le> 59 \<and> sec \<le> 59
             then Some (MakeTime (int h) (int mi) (int sec) (int ms)) else None
         | _ \<Rightarrow> None)
      else None)"

definition parseISO :: "string \<Rightarrow> int option" where
  "parseISO s =
     (if length s = 24 then
        (case (parseDateOnly (take 10 s), parseTimeZ (drop 10 s)) of
           (Some day, Some time) \<Rightarrow> Some (MakeDate day time)
         | _ \<Rightarrow> None)
      else map_option (\<lambda>day. MakeDate day 0) (parseDateOnly s))"

definition Date_parse :: "(string \<Rightarrow> Date) \<Rightarrow> string \<Rightarrow> Date" where
  "Date_parse fb s = (case parseISO s of Some t \<Rightarrow> TimeValue t | None \<Rightarrow> fb s)"

subsection \<open>The record types\<close>

datatype BookCondition = EXCELLENT | GOOD | FAIR | POOR | DESTROYED

text \<open>The interface \<^verbatim>\<open>AddBookData\<close>: what a caller supplies for a new or edited book.\<close>

record AddBookData =
  title :: string
  author :: string
  isbn :: string
  publishedYear :: int
  genre :: string
  description :: string
  condition :: BookCondition

text \<open>
  The interface \<^verbatim>\<open>Book\<close> (its field \<^verbatim>\<open>id\<close> is \<open>book_id\<close> here).  The two date
  fields change their type between memory and file, so the record is polymorphic in
  them: in memory \<open>addedDate\<close> is a \<open>Date\<close> and \<open>lastCheckedOutDate\<close> a
  \<open>Date option\<close> (\<open>None\<close> is \<^verbatim>\<open>undefined\<close>).
\<close>

record ('d, 'l) BookOf = AddBookData +
  book_id :: string
  isCheckedOut :: bool
  isActive :: bool
  lastCheckedOutDate :: 'l
  addedDate :: 'd

type_synonym Book = "(Date, Date option) BookOf"

text \<open>\<^verbatim>\<open>{ ...book, addedDate: a, lastCheckedOutDate: l }\<close>\<close>

definition withDates :: "('a, 'b) BookOf \<Rightarrow> 'c \<Rightarrow> 'd \<Rightarrow> ('c, 'd) BookOf" where
  "withDates book a l =
     \<lparr>title = title book, author = author book, isbn = isbn book,
      publishedYear = publishedYear book, genre = genre book,
      description = description book, condition = condition book,
      book_id = book_id book, isCheckedOut = isCheckedOut book,
      isActive = isActive book, lastCheckedOutDate = l, addedDate = a\<rparr>"

subsection \<open>The backing store\<close>

text \<open>
  The objects of the file have the fields of \<^verbatim>\<open>Book\<close>, with the types of the
  interface but for the two dates.  What a date field of a stored object can be in the
  file: missing, \<^verbatim>\<open>null\<close> or a string.  \<^verbatim>\<open>new Date(undefined)\<close> is an invalid
  date, \<^verbatim>\<open>new Date(null)\<close> the epoch, and a string is parsed.
\<close>

datatype jsval = Absent | Null | Str string

type_synonym StoredBook = "(jsval, jsval) BookOf"

text \<open>
  The file: \<open>Unreadable\<close> when it is missing, cannot be read, is not JSON or has no
  array \<^verbatim>\<open>books\<close>; otherwise the objects of its array \<^verbatim>\<open>books\<close>.
\<close>

datatype store = Unreadable | Holds "StoredBook list"

definition new_Date :: "(string \<Rightarrow> Date) \<Rightarrow> jsval \<Rightarrow> Date" where
  "new_Date fb v =
     (case v of
        Absent \<Rightarrow> InvalidDate
      | Null \<Rightarrow> TimeValue 0
      | Str s \<Rightarrow> TimeClip (Date_parse fb s))"

text \<open>Truthiness of a stored field: \<^verbatim>\<open>undefined\<close>, \<^verbatim>\<open>null\<close> and \<^verbatim>\<open>""\<close> are falsy.\<close>

definition truthy :: "jsval \<Rightarrow> bool" where
  "truthy v = (case v of Absent \<Rightarrow> False | Null \<Rightarrow> False | Str s \<Rightarrow> s \<noteq> [])"

definition reviveBook :: "(string \<Rightarrow> Date) \<Rightarrow> StoredBook \<Rightarrow> Book" where
  "reviveBook fb book =
     withDates book (new_Date fb (addedDate book))
       (if truthy (lastCheckedOutDate book)
        then Some (new_Date fb (lastCheckedOutDate book))
        else None)"

text \<open>
  \<^verbatim>\<open>readBooksFromFile\<close>: any failure of the read or of the parse is caught and the
  empty array returned, so the function has no error result.
\<close>

definition readBooksFromFile :: "(string \<Rightarrow> Date) \<Rightarrow> store \<Rightarrow> Book list" where
  "readBooksFromFile fb f =
     (case f of Unreadable \<Rightarrow> [] | Holds books \<Rightarrow> map (reviveBook fb) books)"

text \<open>
  The environment of one call: the clock read by \<^verbatim>\<open>new Date()\<close>, in milliseconds
  since the epoch, and whether \<^verbatim>\<open>fs.writeFile\<close> succeeds.  When it does not, the
  call throws and has no new content of the file to return: \<open>writeBooksToFile\<close> then
  says nothing about what the file holds.
\<close>

record env =
  now :: int
  write_ok :: bool

datatype error = Failed_to_save_books

text \<open>
  The objects \<^verbatim>\<open>booksToSave\<close>: the dates as strings, \<open>None\<close> for
  \<^verbatim>\<open>undefined\<close>.  The whole result is \<open>None\<close> when \<^verbatim>\<open>toISOString\<close> throws.
\<close>

definition bookToSave :: "Book \<Rightarrow> (string, string option) BookOf option" where
  "bookToSave book =
     (case toISOString (addedDate book) of
        None \<Rightarrow> None
      | Some a \<Rightarrow>
          (case lastCheckedOutDate book of
             None \<Rightarrow> Some (withDates book (split_T_0 a) None)
           | Some d \<Rightarrow>
               (case toISOString d of
                  None \<Rightarrow> None
                | Some l \<Rightarrow> Some (withDates book (split_T_0 a) (Some (split_T_0 l))))))"

fun booksToSave :: "Book list \<Rightarrow> (string, string option) BookOf list option" where
  "booksToSave [] = Some []"
| "booksToSave (book # books) =
     (case bookToSave book of
        None \<Rightarrow> None
      | Some b \<Rightarrow> (case booksToSave books of None \<Rightarrow> None | Some bs \<Rightarrow> Some (b # bs)))"

text \<open>
  \<^verbatim>\<open>JSON.stringify\<close> followed by the file's later \<^verbatim>\<open>JSON.parse\<close>: a property whose
  value is \<^verbatim>\<open>undefined\<close> is left out of the object, a string stays a string.
\<close>

definition JSON_stringify :: "(string, string option) BookOf \<Rightarrow> StoredBook" where
  "JSON_stringify b =
     withDates b (Str (addedDate b))
       (case lastCheckedOutDate b of None \<Rightarrow> Absent | Some l \<Rightarrow> Str l)"

text \<open>
  \<^verbatim>\<open>writeBooksToFile\<close>: the \<^verbatim>\<open>try\<close> block covers the conversion and the write, and
  its \<^verbatim>\<open>catch\<close> throws \<^verbatim>\<open>Error("Failed to save books")\<close>.  The result is the new
  content of the file.
\<close>

definition writeBooksToFile :: "env \<Rightarrow> Book list \<Rightarrow> error + store" where
  "writeBooksToFile e books =
     (case booksToSave books of
        None \<Rightarrow> Inl Failed_to_save_books
      | Some bs \<Rightarrow>
          if write_ok e then Inr (Holds (map JSON_stringify bs))
          else Inl Failed_to_save_books)"

subsection \<open>Queries\<close>

definition getBooks :: "(string \<Rightarrow> Date) \<Rightarrow> store \<Rightarrow> Book list" where
  "getBooks fb f = readBooksFromFile fb f"

definition getBook :: "(string \<Rightarrow> Date) \<Rightarrow> store \<Rightarrow> string \<Rightarrow> Book option" where
  "getBook fb f bookId = find (\<lambda>book. book_id book = bookId) (readBooksFromFile fb f)"

definition getActiveBooks :: "(string \<Rightarrow> Date) \<Rightarrow> store \<Rightarrow> Book list" where
  "getActiveBooks fb f = filter (\<lambda>book. isActive book) (readBooksFromFile fb f)"

subsection \<open>Mutations\<close>

text \<open>
  Each action returns the new content of the file, or the error of
  \<open>writeBooksToFile\<close>.  The calls of \<^verbatim>\<open>revalidatePath\<close> that follow a write tell
  Next.js to refresh its page cache; they do not touch the file and are left out.
\<close>

text \<open>\<^verbatim>\<open>Array.prototype.findIndex\<close>, with \<open>None\<close> for \<^verbatim>\<open>-1\<close>.\<close>

fun findIndex :: "('a \<Rightarrow> bool) \<Rightarrow> 'a list \<Rightarrow> nat option" where
  "findIndex P [] = None"
| "findIndex P (x # xs) =
     (if P x then Some 0 else map_option Suc (findIndex P xs))"

definition newBook :: "nat \<Rightarrow> AddBookData \<Rightarrow> int \<Rightarrow> Book" where
  "newBook count data t =
     \<lparr>title = title data, author = author data, isbn = isbn data,
      publishedYear = publishedYear data, genre = genre data,
      description = description data, condition = condition data,
      book_id = toString (count + 1), isCheckedOut = False, isActive = True,
      lastCheckedOutDate = None, addedDate = TimeValue t\<rparr>"

definition addBook :: "(string \<Rightarrow> Date) \<Rightarrow> env \<Rightarrow> AddBookData \<Rightarrow> store \<Rightarrow> error + store" where
  "addBook fb e data f =
     (let books = readBooksFromFile fb f
      in writeBooksToFile e (books @ [newBook (length books) data (now e)]))"

text \<open>
  \<^verbatim>\<open>{ ...book, ...data, id: book.id, isCheckedOut: book.isCheckedOut, ... }\<close>: the
  seven fields of \<open>data\<close> replace those of \<open>book\<close>, the other five stay.
\<close>

definition updated :: "Book \<Rightarrow> AddBookData \<Rightarrow> Book" where
  "updated book data =
     book\<lparr>title := title data, author := author data, isbn := isbn data,
          publishedYear := publishedYear data, genre := genre data,
          description := description data, condition := condition data\<rparr>"

definition updateBook ::
  "(string \<Rightarrow> Date) \<Rightarrow> env \<Rightarrow> string \<Rightarrow> AddBookData \<Rightarrow> store \<Rightarrow> error + store" where
  "updateBook fb e bookId data f =
     (let books = readBooksFromFile fb f
      in case findIndex (\<lambda>b. book_id b = bookId) books of
           None \<Rightarrow> Inr f
         | Some bookIndex \<Rightarrow>
             writeBooksToFile e (books[bookIndex := updated (books ! bookIndex) data]))"

text \<open>
  The three actions below change the object that \<^verbatim>\<open>books.find\<close> returns, which is the
  first element of the array with that id: an update of the array at that index.
\<close>

definition toggled :: "Book \<Rightarrow> int \<Rightarrow> Book" where
  "toggled book t =
     (let book1 = book\<lparr>isCheckedOut := \<not> isCheckedOut book\<rparr>
      in book1\<lparr>lastCheckedOutDate :=
                 (if isCheckedOut book1 then Some (TimeValue t) else None)\<rparr>)"

definition toggleCheckoutStatus ::
  "(string \<Rightarrow> Date) \<Rightarrow> env \<Rightarrow> string \<Rightarrow> store \<Rightarrow> error + store" where
  "toggleCheckoutStatus fb e bookId f =
     (let books = readBooksFromFile fb f
      in case findIndex (\<lambda>b. book_id b = bookId) books of
           None \<Rightarrow> Inr f
         | Some k \<Rightarrow> writeBooksToFile e (books[k := toggled (books ! k) (now e)]))"

definition markBookInactive ::
  "(string \<Rightarrow> Date) \<Rightarrow> env \<Rightarrow> string \<Rightarrow> store \<Rightarrow> error + store" where
  "markBookInactive fb e bookId f =
     (let books = readBooksFromFile fb f
      in case findIndex (\<lambda>b. book_id b = bookId) books of
           None \<Rightarrow> Inr f
         | Some k \<Rightarrow> writeBooksToFile e (books[k := (books ! k)\<lparr>isActive := False\<rparr>]))"

definition updateBookCondition ::
  "(string \<Rightarrow> Date) \<Rightarrow> env \<Rightarrow> string \<Rightarrow> BookCondition \<Rightarrow> store \<Rightarrow> error + store" where
  "updateBookCondition fb e bookId c f =
     (let books = readBooksFromFile fb f
      in case findIndex (\<lambda>b. book_id b = bookId) books of
           None \<Rightarrow> Inr f
         | Some k \<Rightarrow> writeBooksToFile e (books[k := (books ! k)\<lparr>condition := c\<rparr>]))"

text \<open>
  The file after a call that returned, and after a call that threw before the file was
  opened for writing: \<^verbatim>\<open>toISOString\<close> threw, or \<^verbatim>\<open>fs.writeFile\<close> was refused
  (no permission, a read-only disk).  This is not the only way a write fails:
  \<^verbatim>\<open>fs.writeFile\<close> empties the file before it writes, so a write that breaks off
  halfway leaves a file that does not parse.  That file is the store \<open>Unreadable\<close>;
  \<open>store_after\<close> does not stand for it.
\<close>

definition store_after :: "store \<Rightarrow> error + store \<Rightarrow> store" where
  "store_after f r = (case r of Inl _ \<Rightarrow> f | Inr f' \<Rightarrow> f')"

subsection \<open>Sequences of calls\<close>

datatype action =
    Add AddBookData
  | Update string AddBookData
  | Toggle string
  | SetInactive string
  | SetCondition string BookCondition

fun perform :: "(string \<Rightarrow> Date) \<Rightarrow> env \<Rightarrow> action \<Rightarrow> store \<Rightarrow> error + store" where
  "perform fb e (Add data) f = addBook fb e data f"
| "perform fb e (Update bookId data) f = updateBook fb e bookId data f"
| "perform fb e (Toggle bookId) f = toggleCheckoutStatus fb e bookId f"
| "perform fb e (SetInactive bookId) f = markBookInactive fb e bookId f"
| "perform fb e (SetCondition bookId c) f = updateBookCondition fb e bookId c f"

text \<open>
  A sequence of calls, each in its own environment.  A call that throws leaves the file
  as \<open>store_after\<close> says, untouched, and the sequence goes on.
\<close>

fun run :: "(string \<Rightarrow> Date) \<Rightarrow> (env \<times> action) list \<Rightarrow> store \<Rightarrow> store" where
  "run fb [] f = f"
| "run fb ((e, a) # steps) f = run fb steps (store_after f (perform fb e a f))"

text \<open>\<open>n\<close> calls of \<^verbatim>\<open>toggleCheckoutStatus\<close> on one id that all return, one per clock value.\<close>

fun toggles :: "(string \<Rightarrow> Date) \<Rightarrow> env list \<Rightarrow> string \<Rightarrow> store \<Rightarrow> error + store" where
  "toggles fb [] bookId f = Inr f"
| "toggles fb (e # es) bookId f =
     (case toggleCheckoutStatus fb e bookId f of
        Inl x \<Rightarrow> Inl x
      | Inr f' \<Rightarrow> toggles fb es bookId f')"

text \<open>The id that an action is keyed by; \<open>addBook\<close> has none.\<close>

fun target :: "action \<Rightarrow> string option" where
  "target (Add data) = None"
| "target (Update bookId data) = Some bookId"
| "target (Toggle bookId) = Some bookId"
| "target (SetInactive bookId) = Some bookId"
| "target (SetCondition bookId c) = Some bookId"

subsection \<open>Notions used by the properties\<close>

text \<open>The start (UTC midnight) of the day of a date.\<close>

definition dayStart :: "Date \<Rightarrow> Date" where
  "dayStart d =
     (case d of InvalidDate \<Rightarrow> InvalidDate | TimeValue t \<Rightarrow> TimeValue (Day t * msPerDay))"

text \<open>A record with both dates moved to the start of their day.\<close>

definition truncBook :: "Book \<Rightarrow> Book" where
  "truncBook b =
     b\<lparr>lastCheckedOutDate := map_option dayStart (lastCheckedOutDate b),
       addedDate := dayStart (addedDate b)\<rparr>"

text \<open>Two dates on the same UTC day (or both invalid).\<close>

definition sameDay :: "Date \<Rightarrow> Date \<Rightarrow> bool" where
  "sameDay d d' =
     (case (d, d') of
        (TimeValue t, TimeValue t') \<Rightarrow> Day t = Day t'
      | (InvalidDate, InvalidDate) \<Rightarrow> True
      | _ \<Rightarrow> False)"

text \<open>Equality of two records with the dates compared at day granularity.\<close>

definition book_day_eq :: "Book \<Rightarrow> Book \<Rightarrow> bool" where
  "book_day_eq b b' =
     (title b = title b' \<and> author b = author b' \<and> isbn b = isbn b'
      \<and> publishedYear b = publishedYear b' \<and> genre b = genre b'
      \<and> description b = description b' \<and> condition b = condition b'
      \<and> book_id b = book_id b' \<and> isCheckedOut b = isCheckedOut b'
      \<and> isActive b = isActive b'
      \<and> rel_option sameDay (lastCheckedOutDate b) (lastCheckedOutDate b')
      \<and> sameDay (addedDate b) (addedDate b'))"

text \<open>A time value that a \<^verbatim>\<open>Date\<close> object can hold.\<close>

definition timeInRange :: "int \<Rightarrow> bool" where
  "timeInRange t = (\<bar>t\<bar> \<le> maxTime)"

text \<open>The date lies in the years 0000 to 9999.\<close>

definition fourDigitYear :: "Date \<Rightarrow> bool" where
  "fourDigitYear d =
     (case d of
        InvalidDate \<Rightarrow> False
      | TimeValue t \<Rightarrow> 0 \<le> YearFromTime t \<and> YearFromTime t \<le> 9999)"

text \<open>A string of the form \<^verbatim>\<open>YYYY-MM-DD\<close>: ten characters, digits around two hyphens.\<close>

definition isoDateOnly :: "string \<Rightarrow> bool" where
  "isoDateOnly s =
     (length s = 10 \<and> list_all is_digit (take 4 s) \<and> s ! 4 = CHR ''-''
      \<and> list_all is_digit (take 2 (drop 5 s)) \<and> s ! 7 = CHR ''-''
      \<and> list_all is_digit (drop 8 s))"

text \<open>A string of the form \<^verbatim>\<open>+YYYYYY-MM-DD\<close> or \<^verbatim>\<open>-YYYYYY-MM-DD\<close>.\<close>

definition isoDateExpanded :: "string \<Rightarrow> bool" where
  "isoDateExpanded s =
     (length s = 13 \<and> (s ! 0 = CHR ''+'' \<or> s ! 0 = CHR ''-'')
      \<and> list_all is_digit (take 6 (drop 1 s)) \<and> s ! 7 = CHR ''-''
      \<and> list_all is_digit (take 2 (drop 8 s)) \<and> s ! 10 = CHR ''-''
      \<and> list_all is_digit (drop 11 s))"

text \<open>The stored field is a string of that form.\<close>

definition storedDateOnly :: "jsval \<Rightarrow> bool" where
  "storedDateOnly v = (case v of Str s \<Rightarrow> isoDateOnly s | _ \<Rightarrow> False)"

definition storedDateExpanded :: "jsval \<Rightarrow> bool" where
  "storedDateExpanded v = (case v of Str s \<Rightarrow> isoDateExpanded s | _ \<Rightarrow> False)"

text \<open>A record none of whose dates is invalid: \<^verbatim>\<open>toISOString\<close> does not throw on it.\<close>

definition savable :: "Book \<Rightarrow> bool" where
  "savable b = (addedDate b \<noteq> InvalidDate \<and> lastCheckedOutDate b \<noteq> Some InvalidDate)"

text \<open>A date whose time value, if any, is one a \<^verbatim>\<open>Date\<close> object can hold.\<close>

definition dateInRange :: "Date \<Rightarrow> bool" where
  "dateInRange d = (case d of InvalidDate \<Rightarrow> True | TimeValue t \<Rightarrow> timeInRange t)"

definition bookInRange :: "Book \<Rightarrow> bool" where
  "bookInRange b =
     (dateInRange (addedDate b)
      \<and> (case lastCheckedOutDate b of None \<Rightarrow> True | Some d \<Rightarrow> dateInRange d))"

text \<open>The object that \<^verbatim>\<open>writeBooksToFile\<close> puts into the file for a record.\<close>

definition storedForm :: "Book \<Rightarrow> StoredBook" where
  "storedForm b = JSON_stringify (the (bookToSave b))"

text \<open>
  The common shape of the four actions keyed by an id: the first record with the id is
  replaced by \<open>g\<close> of it and the collection written; nothing is written when no record
  has the id.
\<close>

definition changeFirst ::
  "(string \<Rightarrow> Date) \<Rightarrow> env \<Rightarrow> string \<Rightarrow> (Book \<Rightarrow> Book) \<Rightarrow> store \<Rightarrow> error + store" where
  "changeFirst fb e bookId g f =
     (let books = readBooksFromFile fb f
      in case findIndex (\<lambda>b. book_id b = bookId) books of
           None \<Rightarrow> Inr f
         | Some k \<Rightarrow> writeBooksToFile e (books[k := g (books ! k)]))"

text \<open>The \<open>isActive\<close> flags of a collection replaced, position by position.\<close>

fun relabelFrom :: "(nat \<Rightarrow> bool) \<Rightarrow> nat \<Rightarrow> ('d, 'l) BookOf list \<Rightarrow> ('d, 'l) BookOf list" where
  "relabelFrom v k [] = []"
| "relabelFrom v k (b # bs) = b\<lparr>isActive := v k\<rparr> # relabelFrom v (Suc k) bs"

definition relabelStore :: "(nat \<Rightarrow> bool) \<Rightarrow> store \<Rightarrow> store" where
  "relabelStore v f = (case f of Unreadable \<Rightarrow> Unreadable | Holds bs \<Rightarrow> Holds (relabelFrom v 0 bs))"

subsection \<open>Example data\<close>

text \<open>The book of the specification's scenario, and a store that holds it as record 1.\<close>

definition demoData :: AddBookData where
  "demoData = \<lparr>title = ''Dune'', author = ''Herbert'', isbn = ''978-0'',
     publishedYear = 1965, genre = ''SciFi'', description = ''...'', condition = GOOD\<rparr>"

definition demoStored :: StoredBook where
  "demoStored = \<lparr>title = ''Dune'', author = ''Herbert'', isbn = ''978-0'',
     publishedYear = 1965, genre = ''SciFi'', description = ''...'', condition = GOOD,
     book_id = ''1'', isCheckedOut = False, isActive = True,
     lastCheckedOutDate = Absent, addedDate = Str ''2024-01-01''\<rparr>"

text \<open>The same record stored with a time of day in \<open>addedDate\<close>.\<close>

definition timedStored :: StoredBook where
  "timedStored = demoStored\<lparr>addedDate := Str ''2024-01-01T10:00:00.000Z''\<rparr>"

text \<open>A call at 2024-01-01T10:00:00Z whose write succeeds.\<close>

definition demoEnv :: env where
  "demoEnv = \<lparr>now = 1704103200000, write_ok = True\<rparr>"

text \<open>A parser that recognises nothing beyond the three forms fixed above.\<close>

definition noFallback :: "string \<Rightarrow> Date" where
  "noFallback s = InvalidDate"

section \<open>Auxiliary lemmas\<close>

subsection \<open>The calendar\<close>

text \<open>
  \<open>DayFromYear\<close> grows by \<open>DaysInYear\<close> from a year to the next, and
  \<open>YearFromDay d\<close> is the year \<open>y\<close> with \<open>DayFromYear y \<le> d < DayFromYear (y + 1)\<close>:
  the largest year that begins on or before the day, as ECMAScript defines it.
\<close>

lemma DaysInYear_cases: "DaysInYear y = 365 \<or> DaysInYear y = 366"
  by (simp add: DaysInYear_def)

lemma div_step:
  fixes k n :: int
  assumes "0 < n"
  shows "(k + 1) div n = k div n + (if (k + 1) mod n = 0 then 1 else 0)"
proof -
  define q where "q = k div n"
  define r where "r = k mod n"
  have k: "k = q * n + r" and r: "0 \<le> r" "r < n"
    using assms by (simp_all add: q_def r_def)
  show ?thesis
  proof (cases "r + 1 = n")
    case True
    then have "k + 1 = (q + 1) * n" using k by (simp add: algebra_simps)
    then have "(k + 1) div n = q + 1" "(k + 1) mod n = 0" using assms by simp_all
    then show ?thesis by (simp add: q_def)
  next
    case False
    then have lt: "r + 1 < n" using r by simp
    have e: "k + 1 = n * q + (r + 1)" using k by (simp add: algebra_simps)
    have "(k + 1) div n = q" "(k + 1) mod n = r + 1"
      using int_div_pos_eq [OF e] int_mod_pos_eq [OF e] lt r by simp_all
    then show ?thesis using r by (simp add: q_def)
  qed
qed

lemma mod_shift:
  fixes y c n :: int
  assumes "n dvd c"
  shows "(y - c) mod n = 0 \<longleftrightarrow> y mod n = 0"
  using assms by (simp add: mod_eq_0_iff_dvd dvd_diff_left_iff)

lemma mod_coarser:
  fixes y m n :: int
  assumes "n dvd m" "y mod m = 0"
  shows "y mod n = 0"
  using assms by (meson dvd_trans mod_eq_0_iff_dvd)

lemma DayFromYear_step: "DayFromYear (y + 1) = DayFromYear y + DaysInYear y"
proof -
  have a: "(y + 1 - 1969) div 4 = (y - 1969) div 4 + (if y mod 4 = 0 then 1 else 0)"
  proof -
    have "y + 1 - 1969 = (y - 1969) + 1" "y - 1969 + 1 = y - 1968" by simp_all
    then show ?thesis
      using div_step [of 4 "y - 1969"] mod_shift [of 4 1968 y] by simp
  qed
  have b: "(y + 1 - 1901) div 100 = (y - 1901) div 100 + (if y mod 100 = 0 then 1 else 0)"
  proof -
    have "y + 1 - 1901 = (y - 1901) + 1" "y - 1901 + 1 = y - 1900" by simp_all
    then show ?thesis
      using div_step [of 100 "y - 1901"] mod_shift [of 100 1900 y] by simp
  qed
  have c: "(y + 1 - 1601) div 400 = (y - 1601) div 400 + (if y mod 400 = 0 then 1 else 0)"
  proof -
    have "y + 1 - 1601 = (y - 1601) + 1" "y - 1601 + 1 = y - 1600" by simp_all
    then show ?thesis
      using div_step [of 400 "y - 1601"] mod_shift [of 400 1600 y] by simp
  qed
  have d: "y mod 100 = 0 \<Longrightarrow> y mod 4 = 0" "y mod 400 = 0 \<Longrightarrow> y mod 100 = 0"
    using mod_coarser [of 4 100 y] mod_coarser [of 100 400 y] by simp_all
  have "DayFromYear (y + 1) = 365 * (y - 1970) + 365 + (y + 1 - 1969) div 4
      - (y + 1 - 1901) div 100 + (y + 1 - 1601) div 400"
    by (simp add: DayFromYear_def)
  also have "\<dots> = DayFromYear y + 365 + (if y mod 4 = 0 then 1 else 0)
      - (if y mod 100 = 0 then 1 else 0) + (if y mod 400 = 0 then 1 else 0)"
    unfolding a b c DayFromYear_def by linarith
  also have "\<dots> = DayFromYear y + DaysInYear y"
    using d by (simp add: DaysInYear_def)
  finally show ?thesis .
qed

lemma floor_bounds:
  fixes k n :: int
  assumes "0 < n"
  shows "n * (k div n) \<le> k \<and> k < n * (k div n) + n"
proof -
  have "k = n * (k div n) + k mod n" by simp
  moreover have "0 \<le> k mod n" "k mod n < n" using assms by simp_all
  ultimately show ?thesis by linarith
qed

lemma DayFromYear_estimate:
  "146097 * (y - 1970) - 506 \<le> 400 * DayFromYear y \<and>
   400 * DayFromYear y \<le> 146097 * (y - 1970) + 589"
proof -
  define a where "a = (y - 1969) div 4"
  define b where "b = (y - 1901) div 100"
  define c where "c = (y - 1601) div 400"
  have "4 * a \<le> y - 1969 \<and> y - 1969 < 4 * a + 4"
    unfolding a_def by (rule floor_bounds) simp
  moreover have "100 * b \<le> y - 1901 \<and> y - 1901 < 100 * b + 100"
    unfolding b_def by (rule floor_bounds) simp
  moreover have "400 * c \<le> y - 1601 \<and> y - 1601 < 400 * c + 400"
    unfolding c_def by (rule floor_bounds) simp
  moreover have "DayFromYear y = 365 * (y - 1970) + a - b + c"
    by (simp add: DayFromYear_def a_def b_def c_def)
  ultimately show ?thesis by (simp add: algebra_simps)
qed

lemma YearFromDay_bounds:
  "DayFromYear (YearFromDay d) \<le> d \<and> d < DayFromYear (YearFromDay d + 1)"
proof -
  define y where "y = 1970 + (400 * d) div 146097"
  have "146097 * ((400 * d) div 146097) \<le> 400 * d
      \<and> 400 * d < 146097 * ((400 * d) div 146097) + 146097"
    by (rule floor_bounds) simp
  then have e: "146097 * (y - 1970) \<le> 400 * d \<and> 400 * d < 146097 * (y - 1970) + 146097"
    by (simp add: y_def)
  have "400 * DayFromYear (y - 1) \<le> 400 * d"
    using DayFromYear_estimate [of "y - 1"] e by (simp add: algebra_simps)
  then have lo: "DayFromYear (y - 1) \<le> d" by simp
  have "400 * d < 400 * DayFromYear (y + 2)"
    using DayFromYear_estimate [of "y + 2"] e by (simp add: algebra_simps)
  then have hi: "d < DayFromYear (y + 2)" by simp
  have s: "y - 1 + 1 = y" "y + 1 + 1 = y + 2" by simp_all
  show ?thesis
    using lo hi by (simp add: YearFromDay_def Let_def y_def [symmetric] s)
qed

lemma DayFromYear_mono: "y \<le> z \<Longrightarrow> DayFromYear y \<le> DayFromYear z"
proof (induction z rule: int_ge_induct)
  case base
  show ?case by simp
next
  case (step i)
  then show ?case
    using DayFromYear_step [of i] DaysInYear_cases [of i] by auto
qed

lemma YearFromDay_ge: "DayFromYear a \<le> d \<Longrightarrow> a \<le> YearFromDay d"
  using YearFromDay_bounds [of d] DayFromYear_mono [of "YearFromDay d + 1" a]
  by linarith

lemma YearFromDay_lt: "d < DayFromYear b \<Longrightarrow> YearFromDay d < b"
  using YearFromDay_bounds [of d] DayFromYear_mono [of b "YearFromDay d"]
  by linarith

lemma DayWithinYear_bounds:
  "0 \<le> DayWithinYear t \<and> DayWithinYear t < DaysInYear (YearFromTime t)"
  using YearFromDay_bounds [of "Day t"] DayFromYear_step [of "YearFromTime t"]
  by (simp add: DayWithinYear_def YearFromTime_def)

lemma monthStart_numerals:
  "monthStart l 0 = 0" "monthStart l 1 = 31"
  "monthStart l 2 = 59 + (if l then 1 else 0)" "monthStart l 3 = 90 + (if l then 1 else 0)"
  "monthStart l 4 = 120 + (if l then 1 else 0)" "monthStart l 5 = 151 + (if l then 1 else 0)"
  "monthStart l 6 = 181 + (if l then 1 else 0)" "monthStart l 7 = 212 + (if l then 1 else 0)"
  "monthStart l 8 = 243 + (if l then 1 else 0)" "monthStart l 9 = 273 + (if l then 1 else 0)"
  "monthStart l 10 = 304 + (if l then 1 else 0)" "monthStart l 11 = 334 + (if l then 1 else 0)"
  "monthStart l 12 = 365 + (if l then 1 else 0)"
  by (simp_all add: monthStart_def)

lemma MonthFromDay_range: "0 \<le> MonthFromDay l d \<and> MonthFromDay l d \<le> 11"
  by (simp add: MonthFromDay_def)

lemma MonthFromDay_bracket:
  assumes "0 \<le> d" "d < (if l then 366 else 365)"
  shows "monthStart l (MonthFromDay l d) \<le> d \<and> d < monthStart l (MonthFromDay l d + 1)"
  using assms by (cases l) (simp_all add: MonthFromDay_def monthStart_numerals)

lemma monthStart_span:
  assumes "0 \<le> m" "m \<le> 11"
  shows "monthStart l (m + 1) - monthStart l m \<le> 31"
proof -
  have "m = 0 \<or> m = 1 \<or> m = 2 \<or> m = 3 \<or> m = 4 \<or> m = 5 \<or> m = 6 \<or> m = 7 \<or> m = 8
      \<or> m = 9 \<or> m = 10 \<or> m = 11"
    using assms by presburger
  then show ?thesis by (auto simp: monthStart_numerals)
qed

lemma InLeapYear_days:
  "DaysInYear (YearFromTime t) = (if InLeapYear t then 366 else 365)"
  using DaysInYear_cases [of "YearFromTime t"] by (auto simp: InLeapYear_def)

lemma MonthFromTime_range: "0 \<le> MonthFromTime t \<and> MonthFromTime t \<le> 11"
  by (simp add: MonthFromTime_def MonthFromDay_range)

lemma MonthFromTime_bracket:
  "monthStart (InLeapYear t) (MonthFromTime t) \<le> DayWithinYear t \<and>
   DayWithinYear t < monthStart (InLeapYear t) (MonthFromTime t + 1)"
  unfolding MonthFromTime_def
  using DayWithinYear_bounds [of t] InLeapYear_days [of t]
  by (intro MonthFromDay_bracket) simp_all

lemma DateFromTime_range:
  "1 \<le> DateFromTime t \<and> DateFromTime t \<le> DaysInMonth (YearFromTime t) (MonthFromTime t)"
  using MonthFromTime_bracket [of t]
  by (simp add: DateFromTime_def DaysInMonth_def InLeapYear_def)

lemma DateFromTime_le_31: "DateFromTime t \<le> 31"
  using DateFromTime_range [of t] MonthFromTime_range [of t]
    monthStart_span [of "MonthFromTime t" "DaysInYear (YearFromTime t) = 366"]
  by (simp add: DaysInMonth_def)

lemma MakeDay_fields:
  "MakeDay (YearFromTime t) (MonthFromTime t) (DateFromTime t) = Day t"
  by (simp add: MakeDay_def DateFromTime_def DayWithinYear_def InLeapYear_def)

lemma validYMD_fields:
  "validYMD (YearFromTime t) (nat (MonthFromTime t + 1)) (nat (DateFromTime t))"
proof -
  have "1 \<le> nat (MonthFromTime t + 1)" "nat (MonthFromTime t + 1) \<le> 12"
    "1 \<le> nat (DateFromTime t)"
    using DateFromTime_range [of t] MonthFromTime_range [of t] by linarith+
  moreover have "int (nat (MonthFromTime t + 1)) - 1 = MonthFromTime t"
    "int (nat (DateFromTime t)) = DateFromTime t"
    using DateFromTime_range [of t] MonthFromTime_range [of t] by linarith+
  ultimately show ?thesis
    unfolding validYMD_def using DateFromTime_range [of t] by auto
qed

lemma Day_bounds: "msPerDay * Day t \<le> t \<and> t < msPerDay * Day t + msPerDay"
  unfolding Day_def by (rule floor_bounds) (simp add: msPerDay_def)

text \<open>
  The years 0000 to 9999 are the time values from \<open>-62167219200000\<close> to
  \<open>253402300799999\<close>, and every time value in range lies in a year of at most six
  digits.
\<close>

lemma Year_4digit:
  assumes "- 62167219200000 \<le> t" "t < 253402300800000"
  shows "0 \<le> YearFromTime t \<and> YearFromTime t \<le> 9999"
proof -
  have d: "- 719528 \<le> Day t" "Day t < 2932897"
    using Day_bounds [of t] assms by (simp_all add: msPerDay_def)
  have "DayFromYear 0 = - 719528" "DayFromYear 10000 = 2932897"
    by (simp_all add: DayFromYear_def)
  then show ?thesis
    using YearFromDay_ge [of 0 "Day t"] YearFromDay_lt [of "Day t" 10000] d
    by (simp add: YearFromTime_def)
qed

lemma Year_4digit_conv:
  assumes "0 \<le> YearFromTime t" "YearFromTime t \<le> 9999"
  shows "- 62167219200000 \<le> t \<and> t < 253402300800000"
proof -
  have c: "DayFromYear 0 = - 719528" "DayFromYear 10000 = 2932897"
    by (simp_all add: DayFromYear_def)
  have "DayFromYear 0 \<le> DayFromYear (YearFromTime t)"
    "DayFromYear (YearFromTime t + 1) \<le> DayFromYear 10000"
    using assms by (simp_all add: DayFromYear_mono)
  then have "- 719528 \<le> Day t" "Day t < 2932897"
    using YearFromDay_bounds [of "Day t"] c by (simp_all add: YearFromTime_def)
  then show ?thesis
    using Day_bounds [of t] by (simp add: msPerDay_def)
qed

lemma Year_6digit:
  assumes "\<bar>t\<bar> \<le> maxTime"
  shows "- 271821 \<le> YearFromTime t \<and> YearFromTime t \<le> 275760"
proof -
  have d: "- 100000000 \<le> Day t" "Day t < 100000001"
    using Day_bounds [of t] assms unfolding msPerDay_def maxTime_def by linarith+
  have "DayFromYear (- 271821) = - 100000109" "DayFromYear 275761 = 100000110"
    by (simp_all add: DayFromYear_def)
  then show ?thesis
    using YearFromDay_ge [of "- 271821" "Day t"] YearFromDay_lt [of "Day t" 275761] d
    by (simp add: YearFromTime_def)
qed

subsection \<open>Strings of digits\<close>

lemma digit_val_digit: "digit_val (digit n) = Some (n mod 10)"
proof -
  define k where "k = n mod 10"
  have "k < 10" by (simp add: k_def)
  then have "k \<in> {0, 1, 2, 3, 4, 5, 6, 7, 8, 9}" by auto
  then have "digit_val (''0123456789'' ! k) = Some k"
    by (auto simp: digit_val_def)
  then show ?thesis by (simp add: digit_def k_def)
qed

lemma is_digit_digit: "is_digit (digit n)"
  by (simp add: is_digit_def digit_val_digit)

lemma not_digit_chars:
  "\<not> is_digit CHR ''T''" "\<not> is_digit CHR ''-''" "\<not> is_digit CHR ''+''"
  by (simp_all add: is_digit_def digit_val_def)

lemma length_pad: "length (pad k n) = k"
  by (induction k arbitrary: n) simp_all

lemma pad_digits: "c \<in> set (pad k n) \<Longrightarrow> is_digit c"
  by (induction k arbitrary: n) (auto simp: is_digit_digit)

lemma digits_acc_append:
  "digits_acc a (xs @ ys) =
     (case digits_acc a xs of None \<Rightarrow> None | Some b \<Rightarrow> digits_acc b ys)"
  by (induction xs arbitrary: a) (simp_all split: option.splits)

lemma digits_acc_pad: "digits_acc a (pad k n) = Some (a * 10 ^ k + n mod 10 ^ k)"
proof (induction k arbitrary: n)
  case 0
  show ?case by simp
next
  case (Suc k)
  have "n mod (10 * 10 ^ k) = 10 * (n div 10 mod 10 ^ k) + n mod 10"
    by (rule mod_mult2_eq)
  then show ?case
    by (simp add: digits_acc_append Suc digit_val_digit algebra_simps)
qed

lemma digits_val_pad:
  assumes "0 < k" "n < 10 ^ k"
  shows "digits_val (pad k n) = Some n"
proof -
  have "pad k n \<noteq> []" using assms length_pad [of k n] by auto
  then show ?thesis using assms by (simp add: digits_val_def digits_acc_pad)
qed

subsection \<open>Parsing the date part of an ISO string\<close>

text \<open>
  The date part that \<open>toISOString\<close> produces for a time value in range is parsed back
  to the start of the same day.
\<close>

lemma length_isoYear: "length (isoYear y) = (if 0 \<le> y \<and> y \<le> 9999 then 4 else 7)"
  by (simp add: isoYear_def length_pad)

lemma parseYear_isoYear:
  assumes "- 999999 \<le> y" "y \<le> 999999"
  shows "parseYear (isoYear y) = Some y"
proof (cases "0 \<le> y \<and> y \<le> 9999")
  case True
  then have "nat y < 10000" by linarith
  then have "nat y < 10 ^ 4" by simp
  then have "digits_val (pad 4 (nat y)) = Some (nat y)"
    by (intro digits_val_pad) simp_all
  then show ?thesis using True by (simp add: isoYear_def parseYear_def length_pad)
next
  case False
  have "nat \<bar>y\<bar> < 1000000" using assms by linarith
  then have "nat \<bar>y\<bar> < 10 ^ 6" by simp
  then have d: "digits_val (pad 6 (nat \<bar>y\<bar>)) = Some (nat \<bar>y\<bar>)"
    by (intro digits_val_pad) simp_all
  show ?thesis
  proof (cases "y < 0")
    case True
    then show ?thesis using False d by (simp add: isoYear_def parseYear_def length_pad)
  next
    case False
    then show ?thesis using \<open>\<not> (0 \<le> y \<and> y \<le> 9999)\<close> d
      by (simp add: isoYear_def parseYear_def length_pad)
  qed
qed

lemma parseMonthDay_pad:
  assumes "m < 100" "d < 100"
  shows "parseMonthDay (''-'' @ pad 2 m @ ''-'' @ pad 2 d) = Some (m, d)"
proof -
  have l: "length (pad 2 m) = 2" "length (pad 2 d) = 2" by (simp_all add: length_pad)
  have v: "digits_val (pad 2 m) = Some m" "digits_val (pad 2 d) = Some d"
    using assms by (simp_all add: digits_val_pad)
  have n: "(''-'' @ pad 2 m @ ''-'' @ pad 2 d) ! 3 = CHR ''-''"
    using l by (simp add: nth_append)
  show ?thesis
    unfolding parseMonthDay_def using l v n by simp
qed

lemma isoDatePart_split:
  "isoDatePart t = isoYear (YearFromTime t) @
     (''-'' @ pad 2 (nat (MonthFromTime t + 1)) @ ''-'' @ pad 2 (nat (DateFromTime t)))"
  by (simp add: isoDatePart_def)

lemma parseDateOnly_isoDatePart:
  assumes "\<bar>t\<bar> \<le> maxTime"
  shows "parseDateOnly (isoDatePart t) = Some (Day t)"
proof -
  let ?y = "isoYear (YearFromTime t)"
  let ?m = "nat (MonthFromTime t + 1)" and ?d = "nat (DateFromTime t)"
  let ?r = "''-'' @ pad 2 ?m @ ''-'' @ pad 2 ?d"
  have lr: "length ?r = 6" by (simp add: length_pad)
  have s: "isoDatePart t = ?y @ ?r" by (rule isoDatePart_split)
  have n: "length (isoDatePart t) - 6 = length ?y" unfolding s using lr by simp
  have y: "parseYear ?y = Some (YearFromTime t)"
    using Year_6digit [OF assms] by (intro parseYear_isoYear) simp_all
  have md: "?m < 100" "?d < 100"
    using MonthFromTime_range [of t] DateFromTime_le_31 [of t] by linarith+
  have r: "parseMonthDay ?r = Some (?m, ?d)" using md by (rule parseMonthDay_pad)
  have i: "0 \<le> MonthFromTime t + 1" "0 \<le> DateFromTime t"
    using MonthFromTime_range [of t] DateFromTime_range [of t] by linarith+
  show ?thesis
    unfolding parseDateOnly_def n Let_def
    unfolding s
    using y r validYMD_fields [of t] by (simp add: i MakeDay_fields)
qed

lemma length_isoDatePart: "length (isoDatePart t) = 10 \<or> length (isoDatePart t) = 13"
  by (simp add: isoDatePart_def length_pad length_isoYear)

lemma parseISO_isoDatePart:
  assumes "\<bar>t\<bar> \<le> maxTime"
  shows "parseISO (isoDatePart t) = Some (Day t * msPerDay)"
  using length_isoDatePart [of t] parseDateOnly_isoDatePart [OF assms]
  by (auto simp: parseISO_def MakeDate_def)

lemma isoYear_no_T: "CHR ''T'' \<notin> set (isoYear y)"
  using pad_digits [of "CHR ''T''"] not_digit_chars(1)
  by (auto simp: isoYear_def)

lemma isoDatePart_no_T: "CHR ''T'' \<notin> set (isoDatePart t)"
  using pad_digits [of "CHR ''T''"] not_digit_chars(1) isoYear_no_T
  by (auto simp: isoDatePart_def)

lemma split_T_0_iso: "split_T_0 (isoDatePart t @ CHR ''T'' # r) = isoDatePart t"
  unfolding split_T_0_def using isoDatePart_no_T [of t]
  by (subst takeWhile_append2) auto

lemma isoDatePart_nonempty: "isoDatePart t \<noteq> []"
  using length_isoDatePart [of t] by auto

subsection \<open>Records and their dates\<close>

lemma withDates_sel:
  "title (withDates b a l) = title b" "author (withDates b a l) = author b"
  "isbn (withDates b a l) = isbn b" "publishedYear (withDates b a l) = publishedYear b"
  "genre (withDates b a l) = genre b" "description (withDates b a l) = description b"
  "condition (withDates b a l) = condition b" "book_id (withDates b a l) = book_id b"
  "isCheckedOut (withDates b a l) = isCheckedOut b" "isActive (withDates b a l) = isActive b"
  "lastCheckedOutDate (withDates b a l) = l" "addedDate (withDates b a l) = a"
  by (simp_all add: withDates_def)

lemma withDates_withDates: "withDates (withDates b a l) a' l' = withDates b a' l'"
  by (simp add: withDates_def)

lemma withDates_own:
  fixes b :: "('d, 'l) BookOf"
  shows "withDates b (addedDate b) (lastCheckedOutDate b) = b"
  by (cases b) (simp add: withDates_def)

lemma withDates_update:
  fixes b :: "('d, 'l) BookOf"
  shows "withDates b a l = b\<lparr>lastCheckedOutDate := l, addedDate := a\<rparr>"
  by (cases b) (simp add: withDates_def)

lemma toISOString_date: "toISOString (TimeValue t) = Some (isoDatePart t @ ''T'' @ isoTimePart t)"
  by (simp add: toISOString_def)

lemma isoDay_valid:
  "map_option split_T_0 (toISOString d) =
     (case d of InvalidDate \<Rightarrow> None | TimeValue t \<Rightarrow> Some (isoDatePart t))"
  by (cases d) (simp_all add: toISOString_def split_T_0_iso)

lemma new_Date_isoDatePart:
  assumes "\<bar>t\<bar> \<le> maxTime"
  shows "new_Date fb (Str (isoDatePart t)) = TimeValue (Day t * msPerDay)"
proof -
  have "- 100000000 \<le> Day t" "Day t \<le> 100000000"
    using Day_bounds [of t] assms unfolding msPerDay_def maxTime_def by linarith+
  then have "\<bar>Day t * msPerDay\<bar> \<le> maxTime"
    unfolding msPerDay_def maxTime_def by (simp add: abs_le_iff)
  then show ?thesis
    by (simp add: new_Date_def Date_parse_def parseISO_isoDatePart [OF assms] TimeClip_def)
qed

subsection \<open>Writing and reading back\<close>

lemma bookToSave_eq:
  "bookToSave b =
     (if savable b
      then Some (withDates b (split_T_0 (the (toISOString (addedDate b))))
                   (map_option (\<lambda>d. split_T_0 (the (toISOString d))) (lastCheckedOutDate b)))
      else None)"
  by (cases "addedDate b"; cases "lastCheckedOutDate b")
     (auto simp: bookToSave_def savable_def toISOString_def split: Date.splits)

lemma booksToSave_eq:
  "booksToSave bs =
     (if list_all savable bs then Some (map (\<lambda>b. the (bookToSave b)) bs) else None)"
  by (induction bs) (auto simp: bookToSave_eq)

lemma writeBooksToFile_eq:
  "writeBooksToFile e bs =
     (if list_all savable bs \<and> write_ok e then Inr (Holds (map storedForm bs))
      else Inl Failed_to_save_books)"
  by (simp add: writeBooksToFile_def booksToSave_eq storedForm_def)

lemma TimeClip_in_range: "dateInRange (TimeClip d)"
  by (cases d) (simp_all add: TimeClip_def dateInRange_def timeInRange_def)

lemma new_Date_in_range: "dateInRange (new_Date fb v)"
proof (cases v)
  case (Str s)
  then show ?thesis by (simp add: new_Date_def TimeClip_in_range)
qed (simp_all add: new_Date_def dateInRange_def timeInRange_def maxTime_def)

lemma reviveBook_in_range: "bookInRange (reviveBook fb sb)"
  by (simp add: bookInRange_def reviveBook_def withDates_sel new_Date_in_range)

lemma read_in_range: "b \<in> set (readBooksFromFile fb f) \<Longrightarrow> bookInRange b"
  by (cases f) (auto simp: readBooksFromFile_def reviveBook_in_range)

lemma revive_storedForm:
  assumes "savable b" "bookInRange b"
  shows "reviveBook fb (storedForm b) = truncBook b"
proof -
  obtain t where a: "addedDate b = TimeValue t" and ta: "\<bar>t\<bar> \<le> maxTime"
    using assms by (cases "addedDate b") (auto simp: savable_def bookInRange_def dateInRange_def timeInRange_def)
  have sa: "split_T_0 (the (toISOString (addedDate b))) = isoDatePart t"
    by (simp add: a toISOString_def split_T_0_iso)
  show ?thesis
  proof (cases "lastCheckedOutDate b")
    case None
    then show ?thesis
      using assms sa a
      by (simp add: storedForm_def bookToSave_eq JSON_stringify_def reviveBook_def
          withDates_sel withDates_withDates truthy_def new_Date_isoDatePart [OF ta]
          truncBook_def dayStart_def withDates_update)
  next
    case (Some d)
    then obtain u where l: "d = TimeValue u" and tu: "\<bar>u\<bar> \<le> maxTime"
      using assms by (cases d) (auto simp: savable_def bookInRange_def dateInRange_def timeInRange_def)
    have sl: "split_T_0 (the (toISOString d)) = isoDatePart u"
      by (simp add: l toISOString_def split_T_0_iso)
    show ?thesis
      using assms sa a Some l sl
      by (simp add: storedForm_def bookToSave_eq JSON_stringify_def reviveBook_def
          withDates_sel withDates_withDates truthy_def new_Date_isoDatePart [OF ta]
          new_Date_isoDatePart [OF tu] isoDatePart_nonempty
          truncBook_def dayStart_def withDates_update)
  qed
qed

lemma read_after_write:
  assumes "writeBooksToFile e bs = Inr f'" "list_all bookInRange bs"
  shows "readBooksFromFile fb f' = map truncBook bs"
proof -
  have s: "list_all savable bs" and f': "f' = Holds (map storedForm bs)"
    using assms(1) by (auto simp: writeBooksToFile_eq split: if_splits)
  show ?thesis
    unfolding f' readBooksFromFile_def using s assms(2)
    by (simp add: list_all_iff revive_storedForm)
qed

subsection \<open>Day granularity and the actions keyed by an id\<close>

lemma truncBook_sel:
  "title (truncBook b) = title b" "author (truncBook b) = author b"
  "isbn (truncBook b) = isbn b" "publishedYear (truncBook b) = publishedYear b"
  "genre (truncBook b) = genre b" "description (truncBook b) = description b"
  "condition (truncBook b) = condition b" "book_id (truncBook b) = book_id b"
  "isCheckedOut (truncBook b) = isCheckedOut b" "isActive (truncBook b) = isActive b"
  "lastCheckedOutDate (truncBook b) = map_option dayStart (lastCheckedOutDate b)"
  "addedDate (truncBook b) = dayStart (addedDate b)"
  by (simp_all add: truncBook_def)

lemma Day_dayStart: "Day (Day t * msPerDay) = Day t"
  by (simp add: Day_def msPerDay_def)

lemma dayStart_idem: "dayStart (dayStart d) = dayStart d"
  by (cases d) (simp_all add: dayStart_def Day_dayStart)

lemma truncBook_idem: "truncBook (truncBook b) = truncBook b"
  by (simp add: truncBook_def dayStart_idem option.map_comp comp_def)

lemma sameDay_dayStart: "sameDay (dayStart d) d"
  by (cases d) (simp_all add: sameDay_def dayStart_def Day_dayStart)

lemma sameDay_refl: "sameDay d d"
  by (cases d) (simp_all add: sameDay_def)

lemma book_day_eq_refl: "book_day_eq b b"
  by (cases "lastCheckedOutDate b") (simp_all add: book_day_eq_def sameDay_refl)

lemma book_day_eq_truncBook: "book_day_eq (truncBook b) b"
  by (cases "lastCheckedOutDate b")
     (simp_all add: book_day_eq_def truncBook_sel sameDay_dayStart)

lemma findIndex_None: "findIndex P xs = None \<longleftrightarrow> (\<forall>x \<in> set xs. \<not> P x)"
  by (induction xs) auto

lemma find_findIndex: "find P xs = map_option (\<lambda>k. xs ! k) (findIndex P xs)"
  by (induction xs) (auto simp: option.map_comp comp_def)

lemma findIndex_Some:
  assumes "findIndex P xs = Some k"
  shows "k < length xs \<and> P (xs ! k) \<and> (\<forall>j < k. \<not> P (xs ! j))"
  using assms
proof (induction xs arbitrary: k)
  case Nil
  then show ?case by simp
next
  case (Cons x xs)
  show ?case
  proof (cases "P x")
    case True
    then show ?thesis using Cons.prems by simp
  next
    case False
    then obtain k' where k': "findIndex P xs = Some k'" "k = Suc k'"
      using Cons.prems by auto
    then show ?thesis using Cons.IH [OF k'(1)] False by (auto simp: less_Suc_eq_0_disj)
  qed
qed

lemma findIndex_changed:
  assumes "findIndex P xs = Some k" "P (h y)" "\<And>x. P (h x) = P x"
  shows "findIndex P (map h (xs[k := y])) = Some k"
  using assms(1)
proof (induction xs arbitrary: k)
  case Nil
  then show ?case by simp
next
  case (Cons x xs)
  show ?case
  proof (cases "P x")
    case True
    then show ?thesis using Cons.prems assms(2) by simp
  next
    case False
    then obtain k' where k': "findIndex P xs = Some k'" "k = Suc k'"
      using Cons.prems by auto
    then show ?thesis using Cons.IH [OF k'(1)] False assms(3) by simp
  qed
qed

lemma getBook_findIndex:
  "getBook fb f i =
     map_option (\<lambda>k. readBooksFromFile fb f ! k)
       (findIndex (\<lambda>b. book_id b = i) (readBooksFromFile fb f))"
  by (simp add: getBook_def find_findIndex)

lemma changeFirst_missing:
  assumes "getBook fb f i = None"
  shows "changeFirst fb e i g f = Inr f"
  using assms by (simp add: getBook_findIndex changeFirst_def)

lemma changeFirst_found:
  assumes "getBook fb f i = Some b"
  obtains k where "findIndex (\<lambda>b. book_id b = i) (readBooksFromFile fb f) = Some k"
    "k < length (readBooksFromFile fb f)" "readBooksFromFile fb f ! k = b" "book_id b = i"
    "changeFirst fb e i g f = writeBooksToFile e ((readBooksFromFile fb f)[k := g b])"
proof -
  obtain k where k: "findIndex (\<lambda>b. book_id b = i) (readBooksFromFile fb f) = Some k"
    "readBooksFromFile fb f ! k = b"
    using assms by (auto simp: getBook_findIndex)
  show thesis
    using that [of k] k findIndex_Some [OF k(1)] by (simp add: changeFirst_def)
qed

lemma list_all_update:
  assumes "list_all P xs" "P y"
  shows "list_all P (xs[k := y])"
  using assms by (auto simp: list_all_iff dest: set_update_subset_insert [THEN subsetD])

lemma changeFirst_success:
  assumes "getBook fb f i = Some b" "changeFirst fb e i g f = Inr f'"
    "bookInRange (g b)" "book_id (g b) = i"
  obtains k where "k < length (readBooksFromFile fb f)" "readBooksFromFile fb f ! k = b"
    "\<forall>j < k. book_id (readBooksFromFile fb f ! j) \<noteq> i"
    "readBooksFromFile fb f' = map truncBook ((readBooksFromFile fb f)[k := g b])"
    "getBook fb f' i = Some (truncBook (g b))"
proof -
  let ?bs = "readBooksFromFile fb f"
  obtain k where k: "findIndex (\<lambda>b. book_id b = i) ?bs = Some k" "k < length ?bs"
    "?bs ! k = b" "changeFirst fb e i g f = writeBooksToFile e (?bs[k := g b])"
    using changeFirst_found [OF assms(1)] by metis
  have r: "list_all bookInRange (?bs[k := g b])"
    using assms(3) by (intro list_all_update) (simp_all add: list_all_iff read_in_range)
  have w: "writeBooksToFile e (?bs[k := g b]) = Inr f'" using k(4) assms(2) by simp
  have rd: "readBooksFromFile fb f' = map truncBook (?bs[k := g b])"
    using read_after_write [OF w r] .
  have "findIndex (\<lambda>b. book_id b = i) (map truncBook (?bs[k := g b])) = Some k"
    using k(1) assms(4) by (intro findIndex_changed) (simp_all add: truncBook_sel)
  then have "getBook fb f' i = Some (truncBook (g b))"
    using k(2) by (simp add: getBook_findIndex rd)
  then show thesis
    using that [of k] k findIndex_Some [OF k(1)] rd by simp
qed

lemma changeFirst_result:
  "changeFirst fb e i g f =
     (case getBook fb f i of
        None \<Rightarrow> Inr f
      | Some b \<Rightarrow>
          (case findIndex (\<lambda>b. book_id b = i) (readBooksFromFile fb f) of
             None \<Rightarrow> Inr f
           | Some k \<Rightarrow> writeBooksToFile e ((readBooksFromFile fb f)[k := g b])))"
  by (auto simp: changeFirst_def Let_def getBook_findIndex split: option.splits)

lemma updateBook_changeFirst:
  "updateBook fb e i data f = changeFirst fb e i (\<lambda>b. updated b data) f"
  by (simp add: updateBook_def changeFirst_def)

lemma toggle_changeFirst:
  "toggleCheckoutStatus fb e i f = changeFirst fb e i (\<lambda>b. toggled b (now e)) f"
  by (simp add: toggleCheckoutStatus_def changeFirst_def)

lemma markBookInactive_changeFirst:
  "markBookInactive fb e i f = changeFirst fb e i (\<lambda>b. b\<lparr>isActive := False\<rparr>) f"
  by (simp add: markBookInactive_def changeFirst_def)

lemma updateBookCondition_changeFirst:
  "updateBookCondition fb e i c f = changeFirst fb e i (\<lambda>b. b\<lparr>condition := c\<rparr>) f"
  by (simp add: updateBookCondition_def changeFirst_def)

subsection \<open>The form of the written dates\<close>

lemma list_all_pad: "list_all is_digit (pad k n)"
  by (simp add: list_all_iff pad_digits)

lemma isoDateOnly_parts:
  "isoDateOnly (pad 4 y @ ''-'' @ pad 2 m @ ''-'' @ pad 2 d)"
  by (simp add: isoDateOnly_def length_pad list_all_pad nth_append)

lemma isoDateExpanded_parts:
  assumes "c = CHR ''+'' \<or> c = CHR ''-''"
  shows "isoDateExpanded (c # pad 6 y @ CHR ''-'' # pad 2 m @ CHR ''-'' # pad 2 d)"
  using assms by (simp add: isoDateExpanded_def length_pad list_all_pad nth_append)

lemma isoDatePart_form:
  "if 0 \<le> YearFromTime t \<and> YearFromTime t \<le> 9999
   then isoDateOnly (isoDatePart t) else isoDateExpanded (isoDatePart t)"
proof (cases "0 \<le> YearFromTime t \<and> YearFromTime t \<le> 9999")
  case True
  then show ?thesis
    using isoDateOnly_parts [of "nat (YearFromTime t)"]
    by (simp add: isoDatePart_def isoYear_def)
next
  case False
  then show ?thesis
    by (simp add: isoDatePart_def isoYear_def isoDateExpanded_parts)
qed

lemma storedForm_sel:
  assumes "savable b"
  shows "title (storedForm b) = title b" "author (storedForm b) = author b"
    "isbn (storedForm b) = isbn b" "publishedYear (storedForm b) = publishedYear b"
    "genre (storedForm b) = genre b" "description (storedForm b) = description b"
    "condition (storedForm b) = condition b" "book_id (storedForm b) = book_id b"
    "isCheckedOut (storedForm b) = isCheckedOut b" "isActive (storedForm b) = isActive b"
  using assms by (simp_all add: storedForm_def bookToSave_eq JSON_stringify_def withDates_sel)

lemma storedForm_addedDate:
  assumes "savable b"
  obtains t where "addedDate b = TimeValue t" "addedDate (storedForm b) = Str (isoDatePart t)"
proof -
  obtain t where t: "addedDate b = TimeValue t"
    using assms by (cases "addedDate b") (auto simp: savable_def)
  have "addedDate (storedForm b) = Str (isoDatePart t)"
    using assms t
    by (simp add: storedForm_def bookToSave_eq JSON_stringify_def withDates_sel
        toISOString_def split_T_0_iso)
  then show thesis using that t by blast
qed

lemma storedForm_lastCheckedOutDate_None:
  assumes "savable b" "lastCheckedOutDate b = None"
  shows "lastCheckedOutDate (storedForm b) = Absent"
  using assms by (simp add: storedForm_def bookToSave_eq JSON_stringify_def withDates_sel)

lemma storedForm_lastCheckedOutDate_Some:
  assumes "savable b" "lastCheckedOutDate b = Some d"
  obtains u where "d = TimeValue u" "lastCheckedOutDate (storedForm b) = Str (isoDatePart u)"
proof -
  obtain u where u: "d = TimeValue u"
    using assms by (cases d) (auto simp: savable_def)
  have "lastCheckedOutDate (storedForm b) = Str (isoDatePart u)"
    using assms u
    by (simp add: storedForm_def bookToSave_eq JSON_stringify_def withDates_sel
        toISOString_def split_T_0_iso)
  then show thesis using that u by blast
qed

lemma stored_date_form:
  "if fourDigitYear (TimeValue t) then storedDateOnly (Str (isoDatePart t))
   else storedDateExpanded (Str (isoDatePart t))"
  using isoDatePart_form [of t]
  by (simp add: fourDigitYear_def storedDateOnly_def storedDateExpanded_def)


text \<open>Rules that evaluate \<open>pad\<close> and \<open>digit\<close> on numerals.\<close>

lemma pad_numeral: "pad (numeral k) n = pad (pred_numeral k) (n div 10) @ [digit n]"
proof -
  have "numeral k = Suc (pred_numeral k)" by (rule numeral_eq_Suc)
  then show ?thesis by (simp only: pad.simps)
qed

lemma pad_Suc_0: "pad (Suc 0) n = [digit n]"
  by simp

lemma digit_numeral: "digit (numeral k) = ''0123456789'' ! (numeral k mod 10)"
  by (simp only: digit_def)

lemma digit_small: "digit 0 = CHR ''0''" "digit (Suc 0) = CHR ''1''"
  by (simp_all add: digit_def)

lemma toString_digit: "n < 10 \<Longrightarrow> toString n = [digit n]"
  by (subst toString.simps) simp

lemma toString_Suc_0: "toString (Suc 0) = ''1''"
  by (simp add: toString_digit digit_small)

lemma toString_Suc_Suc_0: "toString (Suc (Suc 0)) = ''2''"
  by (simp add: toString_digit digit_def)

lemma toString_numeral:
  "toString (numeral k) =
     (if (numeral k :: nat) < 10 then [digit (numeral k)]
      else toString (numeral k div 10) @ [digit (numeral k)])"
  by (rule toString.simps)

lemmas eval_pad = pad_numeral pad_Suc_0 digit_numeral digit_small toString_Suc_0
  toString_Suc_Suc_0 toString_numeral

lemma write_success:
  assumes "writeBooksToFile e bs = Inr f'"
  shows "list_all savable bs" "write_ok e" "f' = Holds (map storedForm bs)"
  using assms by (auto simp: writeBooksToFile_eq split: if_splits)

lemma reviveBook_sel:
  "title (reviveBook fb s) = title s" "author (reviveBook fb s) = author s"
  "isbn (reviveBook fb s) = isbn s" "publishedYear (reviveBook fb s) = publishedYear s"
  "genre (reviveBook fb s) = genre s" "description (reviveBook fb s) = description s"
  "condition (reviveBook fb s) = condition s" "book_id (reviveBook fb s) = book_id s"
  "isCheckedOut (reviveBook fb s) = isCheckedOut s" "isActive (reviveBook fb s) = isActive s"
  by (simp_all add: reviveBook_def withDates_sel)

lemma read_written:
  assumes "writeBooksToFile e bs = Inr f'"
  shows "readBooksFromFile fb f' = map (\<lambda>b. reviveBook fb (storedForm b)) bs"
  using write_success(3) [OF assms] by (simp add: readBooksFromFile_def)

lemma read_written_ids:
  assumes "writeBooksToFile e bs = Inr f'"
  shows "map book_id (readBooksFromFile fb f') = map book_id bs"
proof -
  have "book_id (reviveBook fb (storedForm b)) = book_id b" if "b \<in> set bs" for b
    using that write_success(1) [OF assms]
    by (simp add: reviveBook_sel storedForm_sel list_all_iff)
  then show ?thesis by (simp add: read_written [OF assms])
qed

lemma read_written_nth:
  assumes "writeBooksToFile e bs = Inr f'" "k < length bs" "bookInRange (bs ! k)"
  shows "readBooksFromFile fb f' ! k = truncBook (bs ! k)"
proof -
  have "savable (bs ! k)"
    using write_success(1) [OF assms(1)] assms(2) by (simp add: list_all_length)
  then show ?thesis
    using assms(2,3) by (simp add: read_written [OF assms(1)] revive_storedForm)
qed

lemma length_read_written:
  assumes "writeBooksToFile e bs = Inr f'"
  shows "length (readBooksFromFile fb f') = length bs"
  by (simp add: read_written [OF assms])

text \<open>A store that the program has written holds dates at the start of their day.\<close>

lemma dayStart_aligned:
  assumes "b \<in> set (readBooksFromFile fb f)" "writeBooksToFile e0 bs0 = Inr f"
    "list_all bookInRange bs0"
  shows "truncBook b = b"
proof -
  have "readBooksFromFile fb f = map truncBook bs0"
    using read_after_write [OF assms(2,3)] .
  then show ?thesis using assms(1) by (auto simp: truncBook_idem)
qed

subsection \<open>Decimal numerals are injective\<close>

lemma digits_acc_toString: "digits_acc 0 (toString n) = Some n"
proof (induction n rule: toString.induct)
  case (1 n)
  show ?case
  proof (cases "n < 10")
    case True
    then show ?thesis
      by (subst toString.simps) (simp add: digit_val_digit)
  next
    case False
    then have "digits_acc 0 (toString (n div 10)) = Some (n div 10)" using 1 by simp
    then show ?thesis
      using False by (subst toString.simps) (simp add: digits_acc_append digit_val_digit)
  qed
qed

lemma toString_inj:
  assumes "toString m = toString n"
  shows "m = n"
proof -
  have "Some m = digits_acc 0 (toString m)" by (simp only: digits_acc_toString)
  also have "\<dots> = digits_acc 0 (toString n)" by (simp only: assms)
  also have "\<dots> = Some n" by (simp only: digits_acc_toString)
  finally show ?thesis by simp
qed

lemma distinct_toString: "distinct (map toString [1..<Suc n])"
  by (simp add: distinct_map inj_on_def toString_inj del: upt_Suc)

lemma toString_fresh: "toString (Suc n) \<notin> set (map toString [1..<Suc n])"
  by (auto dest: toString_inj)

subsection \<open>Replacing the isActive flags\<close>

lemma relabelFrom_map:
  assumes "\<And>b x. b \<in> set bs \<Longrightarrow> h (b\<lparr>isActive := x\<rparr>) = (h b)\<lparr>isActive := x\<rparr>"
  shows "relabelFrom v n (map h bs) = map h (relabelFrom v n bs)"
  using assms by (induction bs arbitrary: n) simp_all

lemma findIndex_relabelFrom:
  assumes "\<And>b x. P (b\<lparr>isActive := x\<rparr>) = P b"
  shows "findIndex P (relabelFrom v n bs) = findIndex P bs"
  by (induction bs arbitrary: n) (simp_all add: assms)

lemma list_all_relabelFrom:
  assumes "\<And>b x. P (b\<lparr>isActive := x\<rparr>) = P b"
  shows "list_all P (relabelFrom v n bs) = list_all P bs"
  by (induction bs arbitrary: n) (simp_all add: assms)

lemma relabelFrom_update:
  assumes "\<And>b x. g (b\<lparr>isActive := x\<rparr>) = (g b)\<lparr>isActive := x\<rparr>"
  shows "(relabelFrom v n bs)[k := g (relabelFrom v n bs ! k)]
           = relabelFrom v n (bs[k := g (bs ! k)])"
proof (induction bs arbitrary: n k)
  case Nil
  show ?case by simp
next
  case (Cons b bs)
  show ?case by (cases k) (simp_all add: assms Cons.IH)
qed

lemma reviveBook_isActive:
  "reviveBook fb (s\<lparr>isActive := x\<rparr>) = (reviveBook fb s)\<lparr>isActive := x\<rparr>"
  by (simp add: reviveBook_def withDates_def)

lemma storedForm_isActive:
  assumes "savable b"
  shows "storedForm (b\<lparr>isActive := x\<rparr>) = (storedForm b)\<lparr>isActive := x\<rparr>"
  using assms
  by (simp add: storedForm_def bookToSave_eq savable_def JSON_stringify_def withDates_def)

lemma read_relabelStore:
  "readBooksFromFile fb (relabelStore v f) = relabelFrom v 0 (readBooksFromFile fb f)"
  by (cases f)
     (simp_all add: relabelStore_def readBooksFromFile_def relabelFrom_map reviveBook_isActive)

lemma write_relabelFrom:
  "writeBooksToFile e (relabelFrom v 0 bs) = map_sum id (relabelStore v) (writeBooksToFile e bs)"
proof -
  have "list_all savable (relabelFrom v 0 bs) = list_all savable bs"
    by (rule list_all_relabelFrom) (simp add: savable_def)
  moreover have "map storedForm (relabelFrom v 0 bs) = relabelFrom v 0 (map storedForm bs)"
    if "list_all savable bs"
    using that
    by (intro relabelFrom_map [symmetric]) (simp add: list_all_iff storedForm_isActive)
  ultimately show ?thesis
    by (simp add: writeBooksToFile_eq relabelStore_def)
qed

lemma changeFirst_relabelStore:
  assumes "\<And>b x. g (b\<lparr>isActive := x\<rparr>) = (g b)\<lparr>isActive := x\<rparr>"
  shows "changeFirst fb e i g (relabelStore v f)
           = map_sum id (relabelStore v) (changeFirst fb e i g f)"
proof -
  let ?bs = "readBooksFromFile fb f"
  have fi: "findIndex (\<lambda>b. book_id b = i) (relabelFrom v 0 ?bs)
      = findIndex (\<lambda>b. book_id b = i) ?bs"
    by (rule findIndex_relabelFrom) simp
  show ?thesis
  proof (cases "findIndex (\<lambda>b. book_id b = i) ?bs")
    case None
    then show ?thesis using fi by (simp add: changeFirst_def read_relabelStore)
  next
    case (Some k)
    then show ?thesis
      using fi relabelFrom_update [of g v 0 ?bs k, OF assms]
      by (simp add: changeFirst_def read_relabelStore Let_def write_relabelFrom)
  qed
qed

lemma updated_isActive: "updated (b\<lparr>isActive := x\<rparr>) dat = (updated b dat)\<lparr>isActive := x\<rparr>"
  by (simp add: updated_def)

lemma toggled_isActive: "toggled (b\<lparr>isActive := x\<rparr>) t = (toggled b t)\<lparr>isActive := x\<rparr>"
  by (simp add: toggled_def Let_def)

subsection \<open>The ids of the collection\<close>

lemma changeFirst_ids:
  assumes "\<And>b. book_id (g b) = book_id b"
  shows "map book_id (readBooksFromFile fb (store_after f (changeFirst fb e i g f)))
           = map book_id (readBooksFromFile fb f)"
proof (cases "changeFirst fb e i g f")
  case (Inl x)
  then show ?thesis by (simp add: store_after_def)
next
  case (Inr f')
  let ?bs = "readBooksFromFile fb f"
  show ?thesis
  proof (cases "findIndex (\<lambda>b. book_id b = i) ?bs")
    case None
    then show ?thesis using Inr by (simp add: changeFirst_def store_after_def)
  next
    case (Some k)
    then have w: "writeBooksToFile e (?bs[k := g (?bs ! k)]) = Inr f'"
      using Inr by (simp add: changeFirst_def Let_def)
    have "k < length ?bs" using findIndex_Some [OF Some] by simp
    then have "map book_id (?bs[k := g (?bs ! k)]) = map book_id ?bs"
      by (simp add: list_eq_iff_nth_eq nth_list_update assms)
    then show ?thesis
      using Inr read_written_ids [OF w] by (simp add: store_after_def)
  qed
qed

lemma addBook_ids:
  "map book_id (readBooksFromFile fb (store_after f (addBook fb e dat f)))
     = (case addBook fb e dat f of
          Inl _ \<Rightarrow> map book_id (readBooksFromFile fb f)
        | Inr _ \<Rightarrow> map book_id (readBooksFromFile fb f)
            @ [toString (length (readBooksFromFile fb f) + 1)])"
proof (cases "addBook fb e dat f")
  case (Inl x)
  then show ?thesis by (simp add: store_after_def)
next
  case (Inr f')
  then have w: "writeBooksToFile e (readBooksFromFile fb f
      @ [newBook (length (readBooksFromFile fb f)) dat (now e)]) = Inr f'"
    by (simp add: addBook_def Let_def)
  show ?thesis
    using Inr read_written_ids [OF w] by (simp add: store_after_def newBook_def)
qed

lemma perform_ids:
  "map book_id (readBooksFromFile fb (store_after f (perform fb e a f)))
     = map book_id (readBooksFromFile fb f)
   \<or> map book_id (readBooksFromFile fb (store_after f (perform fb e a f)))
     = map book_id (readBooksFromFile fb f) @ [toString (length (readBooksFromFile fb f) + 1)]"
proof (cases a)
  case (Add dat)
  then show ?thesis
    using addBook_ids [of fb f e dat] by (cases "addBook fb e dat f") simp_all
next
  case (Update i dat)
  then show ?thesis
    by (simp add: updateBook_changeFirst changeFirst_ids updated_def)
next
  case (Toggle i)
  then show ?thesis
    by (simp add: toggle_changeFirst changeFirst_ids toggled_def Let_def)
next
  case (SetInactive i)
  then show ?thesis by (simp add: markBookInactive_changeFirst changeFirst_ids)
next
  case (SetCondition i c)
  then show ?thesis by (simp add: updateBookCondition_changeFirst changeFirst_ids)
qed

lemma run_ids:
  assumes "map book_id (readBooksFromFile fb f) = map toString [1..<Suc n]"
  shows "\<exists>m. map book_id (readBooksFromFile fb (run fb steps f)) = map toString [1..<Suc m]"
  using assms
proof (induction steps arbitrary: f n)
  case Nil
  then show ?case by (intro exI [of _ n]) simp
next
  case (Cons step steps)
  obtain e a where step: "step = (e, a)" by (cases step)
  let ?f = "store_after f (perform fb e a f)"
  have len: "length (readBooksFromFile fb f) = n"
    using arg_cong [OF Cons.prems, of length] by simp
  have grow: "map toString [1..<Suc n] @ [toString (n + 1)] = map toString [1..<Suc (Suc n)]"
    by simp
  have "\<exists>n'. map book_id (readBooksFromFile fb ?f) = map toString [1..<Suc n']"
    using perform_ids [of fb f e a] unfolding len Cons.prems grow by blast
  then obtain n' where "map book_id (readBooksFromFile fb ?f) = map toString [1..<Suc n']" ..
  then have "\<exists>m. map book_id (readBooksFromFile fb (run fb steps ?f)) = map toString [1..<Suc m]"
    by (rule Cons.IH)
  then show ?case by (simp only: step run.simps)
qed

subsection \<open>Evaluation on the example data\<close>

lemma isoDatePart_2024:
  "isoDatePart 1704067200000 = ''2024-01-01''" "isoDatePart 1704103200000 = ''2024-01-01''"
proof -
  have "YearFromTime 1704067200000 = 2024" "MonthFromTime 1704067200000 = 0"
    "DateFromTime 1704067200000 = 1"
    by code_simp+
  then show "isoDatePart 1704067200000 = ''2024-01-01''"
    by (simp add: isoDatePart_def isoYear_def eval_pad)
  have "YearFromTime 1704103200000 = 2024" "MonthFromTime 1704103200000 = 0"
    "DateFromTime 1704103200000 = 1"
    by code_simp+
  then show "isoDatePart 1704103200000 = ''2024-01-01''"
    by (simp add: isoDatePart_def isoYear_def eval_pad)
qed

lemma new_Date_2024:
  "new_Date fb (Str ''2024-01-01'') = TimeValue 1704067200000"
  "new_Date fb (Str ''2024-01-01T10:00:00.000Z'') = TimeValue 1704103200000"
proof -
  have "parseISO ''2024-01-01'' = Some 1704067200000"
    "parseISO ''2024-01-01T10:00:00.000Z'' = Some 1704103200000"
    by code_simp+
  then show "new_Date fb (Str ''2024-01-01'') = TimeValue 1704067200000"
    "new_Date fb (Str ''2024-01-01T10:00:00.000Z'') = TimeValue 1704103200000"
    by (simp_all add: new_Date_def Date_parse_def TimeClip_def maxTime_def)
qed

lemma bookToSave_TimeValue:
  "addedDate b = TimeValue t \<Longrightarrow> lastCheckedOutDate b = None \<Longrightarrow>
     bookToSave b = Some (withDates b (isoDatePart t) None)"
  "addedDate b = TimeValue t \<Longrightarrow> lastCheckedOutDate b = Some (TimeValue u) \<Longrightarrow>
     bookToSave b = Some (withDates b (isoDatePart t) (Some (isoDatePart u)))"
  by (simp_all add: bookToSave_def toISOString_def split_T_0_iso)

lemmas eval_ops =
  addBook_def updateBook_def toggleCheckoutStatus_def markBookInactive_def
  updateBookCondition_def readBooksFromFile_def writeBooksToFile_def getBook_def
  getBooks_def getActiveBooks_def reviveBook_def truthy_def bookToSave_TimeValue
  JSON_stringify_def withDates_def newBook_def updated_def toggled_def Let_def
  demoData_def demoStored_def isoDatePart_2024 new_Date_2024 eval_pad store_after_def

lemma demo_add:
  "addBook fb \<lparr>now = 1704103200000, write_ok = True\<rparr> demoData Unreadable
     = Inr (Holds [demoStored])"
  by (simp add: eval_ops)

lemma demo_read:
  "readBooksFromFile fb (Holds [demoStored]) = [newBook 0 demoData 1704067200000]"
  by (simp add: eval_ops)

subsection \<open>A record as it is read back after a write\<close>

lemma persisted_fields:
  assumes "savable b"
  shows "title (reviveBook fb (storedForm b)) = title b"
    "author (reviveBook fb (storedForm b)) = author b"
    "isbn (reviveBook fb (storedForm b)) = isbn b"
    "publishedYear (reviveBook fb (storedForm b)) = publishedYear b"
    "genre (reviveBook fb (storedForm b)) = genre b"
    "description (reviveBook fb (storedForm b)) = description b"
    "condition (reviveBook fb (storedForm b)) = condition b"
    "book_id (reviveBook fb (storedForm b)) = book_id b"
    "isCheckedOut (reviveBook fb (storedForm b)) = isCheckedOut b"
    "isActive (reviveBook fb (storedForm b)) = isActive b"
  using assms by (simp_all add: reviveBook_sel storedForm_sel)

lemma persisted_presence:
  assumes "savable b"
  shows "(lastCheckedOutDate (reviveBook fb (storedForm b)) = None)
           = (lastCheckedOutDate b = None)"
proof (cases "lastCheckedOutDate b")
  case None
  then show ?thesis
    using storedForm_lastCheckedOutDate_None [OF assms None]
    by (simp add: reviveBook_def withDates_sel truthy_def)
next
  case (Some d)
  obtain u where "lastCheckedOutDate (storedForm b) = Str (isoDatePart u)"
    using storedForm_lastCheckedOutDate_Some [OF assms Some] by blast
  then show ?thesis
    using Some by (simp add: reviveBook_def withDates_sel truthy_def isoDatePart_nonempty)
qed

lemma persisted_addedDate:
  assumes "savable b" "dateInRange (addedDate b)"
  shows "addedDate (reviveBook fb (storedForm b)) = dayStart (addedDate b)"
proof -
  obtain t where t: "addedDate b = TimeValue t"
    "addedDate (storedForm b) = Str (isoDatePart t)"
    using storedForm_addedDate [OF assms(1)] by blast
  have "\<bar>t\<bar> \<le> maxTime" using assms(2) t by (simp add: dateInRange_def timeInRange_def)
  then show ?thesis
    using t by (simp add: reviveBook_def withDates_sel new_Date_isoDatePart dayStart_def)
qed

lemma persisted_day_eq:
  assumes "savable b" "bookInRange b"
  shows "book_day_eq (reviveBook fb (storedForm b)) b"
  using assms by (simp add: revive_storedForm book_day_eq_truncBook)

lemma read_written_day_eq:
  assumes "writeBooksToFile e bs = Inr f'" "k < length bs" "bookInRange (bs ! k)"
  shows "book_day_eq (readBooksFromFile fb f' ! k) (bs ! k)"
  using read_written_nth [OF assms] by (simp add: book_day_eq_truncBook)

lemma read_nth_in_range:
  "k < length (readBooksFromFile fb f) \<Longrightarrow> bookInRange (readBooksFromFile fb f ! k)"
  by (rule read_in_range) (rule nth_mem)

text \<open>The frame of an id-keyed action that returns.\<close>

lemma changeFirst_frame:
  assumes "changeFirst fb e i g f = Inr f'" "\<And>b. book_id (g b) = book_id b"
  shows "length (readBooksFromFile fb f') = length (readBooksFromFile fb f)"
    "map book_id (readBooksFromFile fb f') = map book_id (readBooksFromFile fb f)"
    "k < length (readBooksFromFile fb f) \<Longrightarrow> book_id (readBooksFromFile fb f ! k) \<noteq> i
       \<Longrightarrow> book_day_eq (readBooksFromFile fb f' ! k) (readBooksFromFile fb f ! k)"
proof -
  let ?bs = "readBooksFromFile fb f"
  have ids: "map book_id (readBooksFromFile fb f') = map book_id ?bs"
    using changeFirst_ids [of g fb f e i, OF assms(2)] assms(1) by (simp add: store_after_def)
  show "map book_id (readBooksFromFile fb f') = map book_id ?bs" by (rule ids)
  show "length (readBooksFromFile fb f') = length ?bs"
    using arg_cong [OF ids, of length] by simp
  show "book_day_eq (readBooksFromFile fb f' ! k) (?bs ! k)"
    if k: "k < length ?bs" and ne: "book_id (?bs ! k) \<noteq> i"
  proof (cases "findIndex (\<lambda>b. book_id b = i) ?bs")
    case None
    then have "f' = f" using assms(1) by (simp add: changeFirst_def)
    then show ?thesis by (simp add: book_day_eq_refl)
  next
    case (Some j)
    then have w: "writeBooksToFile e (?bs[j := g (?bs ! j)]) = Inr f'"
      using assms(1) by (simp add: changeFirst_def Let_def)
    have "j \<noteq> k" using findIndex_Some [OF Some] ne by auto
    then have n: "?bs[j := g (?bs ! j)] ! k = ?bs ! k" by simp
    have "book_day_eq (readBooksFromFile fb f' ! k) (?bs[j := g (?bs ! j)] ! k)"
      using k by (intro read_written_day_eq [OF w]) (simp_all add: n read_nth_in_range)
    then show ?thesis by (simp add: n)
  qed
qed

text \<open>The record that an id-keyed action has changed, as it is read back.\<close>

lemma changeFirst_changed:
  assumes "getBook fb f i = Some b" "changeFirst fb e i g f = Inr f'" "book_id (g b) = i"
  shows "savable (g b)" "getBook fb f' i = Some (reviveBook fb (storedForm (g b)))"
proof -
  let ?bs = "readBooksFromFile fb f"
  obtain k where k: "findIndex (\<lambda>b. book_id b = i) ?bs = Some k" "k < length ?bs"
    "?bs ! k = b" "changeFirst fb e i g f = writeBooksToFile e (?bs[k := g b])"
    using changeFirst_found [OF assms(1)] by metis
  have w: "writeBooksToFile e (?bs[k := g b]) = Inr f'" using k(4) assms(2) by simp
  have sv: "list_all savable (?bs[k := g b])" using write_success(1) [OF w] .
  then show s: "savable (g b)" using k(2) by (auto simp: list_all_length dest: spec [of _ k])
  let ?h = "\<lambda>b. reviveBook fb (storedForm b)"
  have rd: "readBooksFromFile fb f' = map ?h (?bs[k := g b])" by (rule read_written [OF w])
  have pres: "book_id (?h x) = book_id x" if "x \<in> set (?bs[k := g b])" for x
    using that sv by (simp add: persisted_fields list_all_iff)
  have "find (\<lambda>b. book_id b = i) (map ?h (?bs[k := g b])) = Some (?h (g b))"
  proof -
    have "find (\<lambda>b. book_id b = i) (map ?h xs) = map_option ?h (find (\<lambda>b. book_id b = i) xs)"
      if "\<And>x. x \<in> set xs \<Longrightarrow> book_id (?h x) = book_id x" for xs
      using that by (induction xs) simp_all
    moreover have "findIndex (\<lambda>b. book_id b = i) (map id (?bs[k := g b])) = Some k"
      using k(1) assms(3) by (intro findIndex_changed) simp_all
    ultimately show ?thesis
      using pres k(2) by (simp add: find_findIndex)
  qed
  then show "getBook fb f' i = Some (?h (g b))" by (simp add: getBook_def rd)
qed

lemma getBook_in_range:
  assumes "getBook fb f i = Some b"
  shows "bookInRange b" "book_id b = i"
proof -
  obtain k where "findIndex (\<lambda>b. book_id b = i) (readBooksFromFile fb f) = Some k"
    "readBooksFromFile fb f ! k = b"
    using assms by (auto simp: getBook_findIndex)
  then show "bookInRange b" "book_id b = i"
    using findIndex_Some [of "\<lambda>b. book_id b = i" "readBooksFromFile fb f" k]
    by (auto simp: read_nth_in_range)
qed

lemma getBook_mem:
  assumes "getBook fb f i = Some b"
  shows "b \<in> set (readBooksFromFile fb f)"
proof -
  obtain k where k: "findIndex (\<lambda>b. book_id b = i) (readBooksFromFile fb f) = Some k"
    "readBooksFromFile fb f ! k = b"
    using assms by (auto simp: getBook_findIndex)
  show ?thesis using findIndex_Some [OF k(1)] k(2) nth_mem by blast
qed

subsection \<open>When an action keyed by an id returns, and what one toggle does\<close>

lemma changeFirst_returns:
  assumes "getBook fb f i = Some b" "write_ok e"
    "list_all savable (readBooksFromFile fb f)" "savable (g b)"
  shows "\<exists>f'. changeFirst fb e i g f = Inr f'"
proof -
  let ?bs = "readBooksFromFile fb f"
  obtain k where k: "k < length ?bs"
    "changeFirst fb e i g f = writeBooksToFile e (?bs[k := g b])"
    using changeFirst_found [OF assms(1)] by metis
  have "list_all savable (?bs[k := g b])"
    using assms(3,4) by (rule list_all_update)
  then show ?thesis using assms(2) by (simp add: k(2) writeBooksToFile_eq)
qed

lemma getBook_savable:
  assumes "getBook fb f i = Some b" "list_all savable (readBooksFromFile fb f)"
  shows "savable b"
  using getBook_mem [OF assms(1)] assms(2) by (simp add: list_all_iff)

lemma toggled_sel:
  "isCheckedOut (toggled b t) = (\<not> isCheckedOut b)"
  "(lastCheckedOutDate (toggled b t) \<noteq> None) = isCheckedOut (toggled b t)"
  "title (toggled b t) = title b" "author (toggled b t) = author b"
  "isbn (toggled b t) = isbn b" "publishedYear (toggled b t) = publishedYear b"
  "genre (toggled b t) = genre b" "description (toggled b t) = description b"
  "condition (toggled b t) = condition b" "book_id (toggled b t) = book_id b"
  "isActive (toggled b t) = isActive b" "addedDate (toggled b t) = addedDate b"
  by (simp_all add: toggled_def Let_def)

lemma savable_toggled: "savable b \<Longrightarrow> savable (toggled b t)"
  by (simp add: savable_def toggled_def Let_def)

lemma savable_updated: "savable (updated b dat) = savable b"
  by (simp add: savable_def updated_def)

text \<open>The record with the id after one \<open>toggleCheckoutStatus\<close> that returned.\<close>

lemma toggle_once:
  assumes "getBook fb f i = Some b" "toggleCheckoutStatus fb e i f = Inr f'"
  obtains b' where "getBook fb f' i = Some b'"
    "isCheckedOut b' = (\<not> isCheckedOut b)"
    "(lastCheckedOutDate b' \<noteq> None) = isCheckedOut b'"
    "title b' = title b" "author b' = author b" "isbn b' = isbn b"
    "publishedYear b' = publishedYear b" "genre b' = genre b"
    "description b' = description b" "condition b' = condition b"
    "book_id b' = book_id b" "isActive b' = isActive b"
    "addedDate b' = dayStart (addedDate b)"
proof -
  let ?u = "toggled b (now e)"
  let ?b' = "reviveBook fb (storedForm ?u)"
  have c: "changeFirst fb e i (\<lambda>b. toggled b (now e)) f = Inr f'"
    using assms(2) by (simp add: toggle_changeFirst)
  have id: "book_id ?u = i"
    using getBook_in_range(2) [OF assms(1)] by (simp add: toggled_sel)
  have s: "savable ?u" and r: "getBook fb f' i = Some ?b'"
    using changeFirst_changed [OF assms(1) c id] by simp_all
  have "dateInRange (addedDate ?u)"
    using getBook_in_range(1) [OF assms(1)] by (simp add: bookInRange_def toggled_sel)
  then have d: "addedDate ?b' = dayStart (addedDate b)"
    using persisted_addedDate [OF s] by (simp add: toggled_sel)
  have p: "(lastCheckedOutDate ?b' \<noteq> None) = isCheckedOut ?b'"
    using persisted_presence [OF s, of fb] toggled_sel(2) [of b "now e"]
    by (simp add: persisted_fields [OF s])
  have q: "isCheckedOut ?b' = (\<not> isCheckedOut b)"
    "title ?b' = title b" "author ?b' = author b" "isbn ?b' = isbn b"
    "publishedYear ?b' = publishedYear b" "genre ?b' = genre b"
    "description ?b' = description b" "condition ?b' = condition b"
    "book_id ?b' = book_id b" "isActive ?b' = isActive b"
    by (simp_all only: persisted_fields [OF s] toggled_sel)
  show thesis
    using that [of ?b'] r d p q by (simp only: simp_thms)
qed

text \<open>
  The record with the id after an action that returned and that leaves the dates of the
  record alone: the changed record, with its dates at the start of their day.
\<close>

lemma changeFirst_kept_dates:
  assumes "getBook fb f i = Some b" "changeFirst fb e i g f = Inr f'"
    "book_id (g b) = book_id b" "addedDate (g b) = addedDate b"
    "lastCheckedOutDate (g b) = lastCheckedOutDate b"
  shows "getBook fb f' i = Some (truncBook (g b))"
proof -
  have id: "book_id (g b) = i" using getBook_in_range(2) [OF assms(1)] assms(3) by simp
  have "bookInRange (g b)"
    using getBook_in_range(1) [OF assms(1)] assms(4,5) by (simp add: bookInRange_def)
  then show ?thesis
    using changeFirst_success [OF assms(1,2) _ id] by blast
qed

subsection \<open>Saving a collection that was loaded from a saved one\<close>

lemma isoDatePart_dayStart: "isoDatePart (Day t * msPerDay) = isoDatePart t"
  by (simp add: isoDatePart_def YearFromTime_def MonthFromTime_def DateFromTime_def
      InLeapYear_def DayWithinYear_def Day_dayStart)

lemma savable_truncBook: "savable (truncBook b) = savable b"
proof -
  have d: "dayStart x = InvalidDate \<longleftrightarrow> x = InvalidDate" for x
    by (cases x) (simp_all add: dayStart_def)
  show ?thesis
    by (cases "lastCheckedOutDate b") (simp_all add: savable_def truncBook_sel d)
qed

lemma split_date_dayStart:
  "x \<noteq> InvalidDate \<Longrightarrow>
     split_T_0 (the (toISOString (dayStart x))) = split_T_0 (the (toISOString x))"
  by (cases x) (simp_all add: dayStart_def toISOString_def split_T_0_iso isoDatePart_dayStart)

lemma storedForm_truncBook:
  assumes "savable b"
  shows "storedForm (truncBook b) = storedForm b"
proof -
  have a: "addedDate b \<noteq> InvalidDate" using assms by (simp add: savable_def)
  show ?thesis
  proof (cases "lastCheckedOutDate b")
    case None
    then show ?thesis
      using assms a
      by (simp add: storedForm_def bookToSave_eq savable_truncBook truncBook_sel
          split_date_dayStart withDates_def)
  next
    case (Some d)
    then have "d \<noteq> InvalidDate" using assms by (auto simp: savable_def)
    then show ?thesis
      using assms a Some
      by (simp add: storedForm_def bookToSave_eq savable_truncBook truncBook_sel
          split_date_dayStart withDates_def)
  qed
qed

lemma write_read_written:
  assumes "writeBooksToFile e bs = Inr f'" "list_all bookInRange bs" "write_ok e'"
  shows "writeBooksToFile e' (readBooksFromFile fb f') = Inr f'"
proof -
  have s: "list_all savable bs" and f': "f' = Holds (map storedForm bs)"
    using write_success [OF assms(1)] by simp_all
  have r: "readBooksFromFile fb f' = map truncBook bs"
    using read_after_write [OF assms(1,2)] .
  have m: "map storedForm (map truncBook bs) = map storedForm bs"
    using s by (simp add: list_all_iff storedForm_truncBook)
  have t: "list_all savable (map truncBook bs)"
    using s by (simp add: list_all_iff savable_truncBook)
  have "writeBooksToFile e' (map truncBook bs) = Inr (Holds (map storedForm bs))"
    using assms(3) t by (simp only: writeBooksToFile_eq m) simp
  then have "writeBooksToFile e' (readBooksFromFile fb f') = Inr (Holds (map storedForm bs))"
    by (simp only: r)
  then show ?thesis by (simp only: f' [symmetric])
qed

section \<open>The properties\<close>

text \<open>
  Claim C1, as stated: after \<open>n\<close> toggles of any record present in the collection,
  \<open>lastCheckedOutDate\<close> is present when \<open>n\<close> is odd and absent when \<open>n\<close> is even.  It
  fails for a record that is checked out to begin with: in the store below record 1 is
  checked out; one toggle (an odd number) checks it in, and its \<open>lastCheckedOutDate\<close>
  is then absent.
\<close>

theorem toggle_checked_out_record:
  "getBook noFallback
      (Holds [demoStored\<lparr>isCheckedOut := True, lastCheckedOutDate := Str ''2024-01-01''\<rparr>]) ''1''
     = Some ((newBook 0 demoData 1704067200000)
         \<lparr>isCheckedOut := True, lastCheckedOutDate := Some (TimeValue 1704067200000)\<rparr>)
   \<and> toggles noFallback [demoEnv] ''1''
        (Holds [demoStored\<lparr>isCheckedOut := True, lastCheckedOutDate := Str ''2024-01-01''\<rparr>])
       = Inr (Holds [demoStored])
   \<and> odd (length [demoEnv])
   \<and> getBook noFallback (Holds [demoStored]) ''1'' = Some (newBook 0 demoData 1704067200000)
   \<and> lastCheckedOutDate (newBook 0 demoData 1704067200000) = None"
  by (simp add: eval_ops demoEnv_def)

text \<open>
  Claim C1, amended.  Let \<open>b\<close> be the record with id \<open>i\<close>, and let \<open>n \<ge> 1\<close> calls of
  \<open>toggleCheckoutStatus\<close> on \<open>i\<close> all return.  Then the record with id \<open>i\<close> has
  the \<open>isCheckedOut\<close> of \<open>b\<close> when \<open>n\<close> is even and its negation when \<open>n\<close> is odd (two
  toggles restore it); its \<open>lastCheckedOutDate\<close> is present exactly when its
  \<open>isCheckedOut\<close> is true, so for a record that was not checked out it is present when
  \<open>n\<close> is odd and absent when \<open>n\<close> is even; every other field is the one of \<open>b\<close>,
  but \<open>addedDate\<close> is moved to the start of its UTC day.
\<close>

theorem toggle_n_times:
  assumes "getBook fb f i = Some b" "toggles fb es i f = Inr f'" "es \<noteq> []"
  shows "\<exists>b'. getBook fb f' i = Some b'
     \<and> isCheckedOut b' = (if even (length es) then isCheckedOut b else \<not> isCheckedOut b)
     \<and> (lastCheckedOutDate b' \<noteq> None) = isCheckedOut b'
     \<and> (\<not> isCheckedOut b \<longrightarrow> (lastCheckedOutDate b' \<noteq> None) = odd (length es))
     \<and> title b' = title b \<and> author b' = author b \<and> isbn b' = isbn b
     \<and> publishedYear b' = publishedYear b \<and> genre b' = genre b
     \<and> description b' = description b \<and> condition b' = condition b
     \<and> book_id b' = book_id b \<and> isActive b' = isActive b
     \<and> addedDate b' = dayStart (addedDate b)"
proof -
  have once: "\<exists>b1. getBook fb f1 i = Some b1
      \<and> isCheckedOut b1 = (\<not> isCheckedOut b0)
      \<and> (lastCheckedOutDate b1 \<noteq> None) = isCheckedOut b1
      \<and> title b1 = title b0 \<and> author b1 = author b0 \<and> isbn b1 = isbn b0
      \<and> publishedYear b1 = publishedYear b0 \<and> genre b1 = genre b0
      \<and> description b1 = description b0 \<and> condition b1 = condition b0
      \<and> book_id b1 = book_id b0 \<and> isActive b1 = isActive b0
      \<and> addedDate b1 = dayStart (addedDate b0)"
    if g: "getBook fb f0 i = Some b0" and t: "toggleCheckoutStatus fb e i f0 = Inr f1"
    for f0 f1 b0 e
  proof -
    let ?u = "toggled b0 (now e)"
    let ?b1 = "reviveBook fb (storedForm ?u)"
    have c: "changeFirst fb e i (\<lambda>b. toggled b (now e)) f0 = Inr f1"
      using t by (simp add: toggle_changeFirst)
    have id: "book_id ?u = i"
      using getBook_in_range(2) [OF g] by (simp add: toggled_def Let_def)
    have s: "savable ?u" and r: "getBook fb f1 i = Some ?b1"
      using changeFirst_changed [OF g c id] by simp_all
    have u: "isCheckedOut ?u = (\<not> isCheckedOut b0)"
      "(lastCheckedOutDate ?u \<noteq> None) = isCheckedOut ?u"
      "title ?u = title b0" "author ?u = author b0" "isbn ?u = isbn b0"
      "publishedYear ?u = publishedYear b0" "genre ?u = genre b0"
      "description ?u = description b0" "condition ?u = condition b0"
      "book_id ?u = book_id b0" "isActive ?u = isActive b0" "addedDate ?u = addedDate b0"
      by (simp_all add: toggled_def Let_def)
    have "dateInRange (addedDate ?u)"
      using getBook_in_range(1) [OF g] by (simp add: bookInRange_def u(12))
    then have d: "addedDate ?b1 = dayStart (addedDate b0)"
      using persisted_addedDate [OF s] by (simp add: u(12))
    have p: "(lastCheckedOutDate ?b1 \<noteq> None) = isCheckedOut ?b1"
      using persisted_presence [OF s, of fb] u(2) by (simp add: persisted_fields [OF s])
    have q: "isCheckedOut ?b1 = (\<not> isCheckedOut b0)"
      "title ?b1 = title b0" "author ?b1 = author b0" "isbn ?b1 = isbn b0"
      "publishedYear ?b1 = publishedYear b0" "genre ?b1 = genre b0"
      "description ?b1 = description b0" "condition ?b1 = condition b0"
      "book_id ?b1 = book_id b0" "isActive ?b1 = isActive b0"
      by (simp_all only: persisted_fields [OF s] u)
    show ?thesis
      using r d p q by (intro exI [of _ ?b1]) (simp only: simp_thms)
  qed
  show ?thesis
    using assms
  proof (induction es arbitrary: f b)
    case Nil
    then show ?case by simp
  next
    case (Cons e es)
    obtain f1 where t: "toggleCheckoutStatus fb e i f = Inr f1"
      and rest: "toggles fb es i f1 = Inr f'"
      using Cons.prems(2) by (cases "toggleCheckoutStatus fb e i f") simp_all
    obtain b1 where b1: "getBook fb f1 i = Some b1"
      "isCheckedOut b1 = (\<not> isCheckedOut b)"
      "(lastCheckedOutDate b1 \<noteq> None) = isCheckedOut b1"
      "title b1 = title b" "author b1 = author b" "isbn b1 = isbn b"
      "publishedYear b1 = publishedYear b" "genre b1 = genre b"
      "description b1 = description b" "condition b1 = condition b"
      "book_id b1 = book_id b" "isActive b1 = isActive b"
      "addedDate b1 = dayStart (addedDate b)"
      using once [OF Cons.prems(1) t] by blast
    show ?case
    proof (cases "es = []")
      case True
      then have "f' = f1" using rest by simp
      then show ?thesis using b1 True by (intro exI [of _ b1]) simp
    next
      case False
      obtain b' where b': "getBook fb f' i = Some b'"
        "isCheckedOut b' = (if even (length es) then isCheckedOut b1 else \<not> isCheckedOut b1)"
        "(lastCheckedOutDate b' \<noteq> None) = isCheckedOut b'"
        "title b' = title b1" "author b' = author b1" "isbn b' = isbn b1"
        "publishedYear b' = publishedYear b1" "genre b' = genre b1"
        "description b' = description b1" "condition b' = condition b1"
        "book_id b' = book_id b1" "isActive b' = isActive b1"
        "addedDate b' = dayStart (addedDate b1)"
        using Cons.IH [OF b1(1) rest False] by blast
      have "addedDate b' = dayStart (addedDate b)"
        using b'(13) b1(13) by (simp add: dayStart_idem)
      then show ?thesis
        using b' b1 by (intro exI [of _ b']) simp
    qed
  qed
qed

theorem toggle_n_times_witness:
  "getBook noFallback (Holds [demoStored]) ''1'' = Some (newBook 0 demoData 1704067200000)
   \<and> toggles noFallback [demoEnv, demoEnv] ''1'' (Holds [demoStored]) = Inr (Holds [demoStored])
   \<and> [demoEnv, demoEnv] \<noteq> []
   \<and> (\<exists>b'. getBook noFallback (Holds [demoStored]) ''1'' = Some b'
         \<and> isCheckedOut b' = False \<and> lastCheckedOutDate b' = None)"
proof -
  have g: "getBook noFallback (Holds [demoStored]) ''1'' = Some (newBook 0 demoData 1704067200000)"
    by (simp add: eval_ops)
  have t: "toggles noFallback [demoEnv, demoEnv] ''1'' (Holds [demoStored]) = Inr (Holds [demoStored])"
    by (simp add: eval_ops demoEnv_def)
  have n: "[demoEnv, demoEnv] \<noteq> []" by simp
  obtain b' where b': "getBook noFallback (Holds [demoStored]) ''1'' = Some b'"
    "isCheckedOut b' = (if even (length [demoEnv, demoEnv])
        then isCheckedOut (newBook 0 demoData 1704067200000)
        else \<not> isCheckedOut (newBook 0 demoData 1704067200000))"
    "(lastCheckedOutDate b' \<noteq> None) = isCheckedOut b'"
    using toggle_n_times [OF g t n] by blast
  have "isCheckedOut b' = False" using b'(2) by (simp add: newBook_def)
  then have "isCheckedOut b' = False \<and> lastCheckedOutDate b' = None" using b'(3) by simp
  then show ?thesis using g t n b'(1) by blast
qed

text \<open>
  Claim C2, as stated: after \<open>addBook\<close>, \<open>getBook\<close> of the new id returns a record whose
  \<open>addedDate\<close> is the creation time.  It fails whenever the creation time is not a UTC
  midnight: a book added to the empty store at 2024-01-01T10:00:00Z is returned with
  \<open>addedDate\<close> 2024-01-01T00:00:00Z, because the date is stored without its time.
\<close>

theorem add_then_get_differs:
  "now demoEnv = 1704103200000
   \<and> addBook noFallback demoEnv demoData Unreadable = Inr (Holds [demoStored])
   \<and> getBook noFallback (Holds [demoStored]) ''1'' = Some (newBook 0 demoData 1704067200000)
   \<and> newBook 0 demoData 1704067200000 \<noteq> newBook 0 demoData 1704103200000"
  by (simp add: eval_ops demoEnv_def)

text \<open>
  Claim C2, amended.  When \<open>addBook\<close> returns (at a clock reading that is a time
  value), the collection is the one before, record by record up to the time of day of
  the dates, followed by exactly one new record: its id is the numeral of the former
  count plus one, \<open>isCheckedOut\<close> is false, \<open>isActive\<close> is true, \<open>lastCheckedOutDate\<close>
  is absent, \<open>addedDate\<close> is the start of the UTC day of the creation time, and the
  other fields are those of the input.  After any sequence of calls from an empty
  store, \<open>getBook\<close> of the id of a book just added returns that record.
\<close>

theorem add_effect:
  "(addBook fb e dat f = Inr f' \<and> timeInRange (now e) \<longrightarrow>
      (\<exists>bs. readBooksFromFile fb f'
           = bs @ [\<lparr>title = title dat, author = author dat, isbn = isbn dat,
                    publishedYear = publishedYear dat, genre = genre dat,
                    description = description dat, condition = condition dat,
                    book_id = toString (length (readBooksFromFile fb f) + 1),
                    isCheckedOut = False, isActive = True, lastCheckedOutDate = None,
                    addedDate = TimeValue (Day (now e) * msPerDay)\<rparr>]
         \<and> list_all2 book_day_eq bs (readBooksFromFile fb f)))
   \<and> (readBooksFromFile fb f0 = [] \<and> addBook fb e dat (run fb steps f0) = Inr f''
        \<and> timeInRange (now e) \<longrightarrow>
        getBook fb f'' (toString (length (readBooksFromFile fb (run fb steps f0)) + 1))
          = Some \<lparr>title = title dat, author = author dat, isbn = isbn dat,
                   publishedYear = publishedYear dat, genre = genre dat,
                   description = description dat, condition = condition dat,
                   book_id = toString (length (readBooksFromFile fb (run fb steps f0)) + 1),
                   isCheckedOut = False, isActive = True, lastCheckedOutDate = None,
                   addedDate = TimeValue (Day (now e) * msPerDay)\<rparr>)"
proof -
  have appended: "readBooksFromFile fb g'
        = map truncBook (readBooksFromFile fb g)
            @ [newBook (length (readBooksFromFile fb g)) dat (Day (now e) * msPerDay)]"
    if a: "addBook fb e dat g = Inr g'" and t: "timeInRange (now e)" for g g'
  proof -
    let ?bs = "readBooksFromFile fb g"
    let ?new = "newBook (length ?bs) dat (now e)"
    have w: "writeBooksToFile e (?bs @ [?new]) = Inr g'"
      using a by (simp add: addBook_def Let_def)
    have "bookInRange ?new"
      using t by (simp add: bookInRange_def dateInRange_def newBook_def)
    then have "list_all bookInRange (?bs @ [?new])"
      by (simp add: list_all_iff read_in_range)
    then have "readBooksFromFile fb g' = map truncBook (?bs @ [?new])"
      by (rule read_after_write [OF w])
    then show ?thesis by (simp add: truncBook_def newBook_def dayStart_def)
  qed
  have lit: "newBook n dat t
      = \<lparr>title = title dat, author = author dat, isbn = isbn dat,
         publishedYear = publishedYear dat, genre = genre dat,
         description = description dat, condition = condition dat,
         book_id = toString (n + 1), isCheckedOut = False, isActive = True,
         lastCheckedOutDate = None, addedDate = TimeValue t\<rparr>" for n t
    by (simp add: newBook_def)
  have first: "\<exists>bs. readBooksFromFile fb f'
        = bs @ [newBook (length (readBooksFromFile fb f)) dat (Day (now e) * msPerDay)]
      \<and> list_all2 book_day_eq bs (readBooksFromFile fb f)"
    if "addBook fb e dat f = Inr f'" "timeInRange (now e)"
    using appended [OF that]
    by (intro exI [of _ "map truncBook (readBooksFromFile fb f)"])
       (simp add: list_all2_conv_all_nth book_day_eq_truncBook)
  have second: "getBook fb f'' (toString (length (readBooksFromFile fb (run fb steps f0)) + 1))
      = Some (newBook (length (readBooksFromFile fb (run fb steps f0))) dat (Day (now e) * msPerDay))"
    if e: "readBooksFromFile fb f0 = []"
      and a: "addBook fb e dat (run fb steps f0) = Inr f''" and t: "timeInRange (now e)"
  proof -
    let ?bs = "readBooksFromFile fb (run fb steps f0)"
    have "map book_id (readBooksFromFile fb f0) = map toString [1..<Suc 0]"
      using e by simp
    then obtain m where m: "map book_id ?bs = map toString [1..<Suc m]"
      using run_ids by blast
    have len: "length ?bs = m" using arg_cong [OF m, of length] by simp
    have "toString (Suc m) \<notin> set (map book_id ?bs)"
      unfolding m by (rule toString_fresh)
    then have fresh: "\<forall>x \<in> set (map truncBook ?bs). book_id x \<noteq> toString (m + 1)"
      by (force simp: truncBook_sel)
    have "find (\<lambda>b. book_id b = toString (m + 1)) (xs @ [newBook m dat u]) = Some (newBook m dat u)"
      if "\<forall>x \<in> set xs. book_id x \<noteq> toString (m + 1)" for xs u
      using that by (induction xs) (simp_all add: newBook_def)
    then show ?thesis
      using fresh by (simp add: getBook_def appended [OF a t] len)
  qed
  show ?thesis
    using first second unfolding lit by blast
qed

theorem add_effect_witness:
  "addBook noFallback demoEnv demoData (Holds [demoStored])
     = Inr (Holds [demoStored, demoStored\<lparr>book_id := ''2''\<rparr>])
   \<and> timeInRange (now demoEnv)
   \<and> readBooksFromFile noFallback Unreadable = []
   \<and> run noFallback [(demoEnv, Add demoData)] Unreadable = Holds [demoStored]
   \<and> readBooksFromFile noFallback (Holds [demoStored, demoStored\<lparr>book_id := ''2''\<rparr>])
       = [newBook 0 demoData 1704067200000, newBook 1 demoData 1704067200000]
   \<and> getBook noFallback (Holds [demoStored, demoStored\<lparr>book_id := ''2''\<rparr>]) ''2''
       = Some (newBook 1 demoData 1704067200000)"
proof -
  let ?f = "Holds [demoStored, demoStored\<lparr>book_id := ''2''\<rparr>]"
  have a: "addBook noFallback demoEnv demoData (Holds [demoStored]) = Inr ?f"
    and r: "run noFallback [(demoEnv, Add demoData)] Unreadable = Holds [demoStored]"
    and e: "readBooksFromFile noFallback Unreadable = []"
    and l: "length (readBooksFromFile noFallback (Holds [demoStored])) = 1"
    and rd: "readBooksFromFile noFallback ?f
       = [newBook 0 demoData 1704067200000, newBook 1 demoData 1704067200000]"
    by (simp_all add: eval_ops demoEnv_def)
  have t: "timeInRange (now demoEnv)"
    by (simp add: timeInRange_def maxTime_def demoEnv_def)
  have a': "addBook noFallback demoEnv demoData (run noFallback [(demoEnv, Add demoData)] Unreadable)
      = Inr ?f"
    using a by (simp only: r)
  have d: "Day (now demoEnv) * msPerDay = 1704067200000"
    by (simp add: Day_def msPerDay_def demoEnv_def)
  note m = add_effect [where fb = noFallback and e = demoEnv and dat = demoData
      and f = "Holds [demoStored]" and f' = ?f and ?f0.0 = Unreadable
      and steps = "[(demoEnv, Add demoData)]" and f'' = ?f]
  have "getBook noFallback ?f
        (toString (length (readBooksFromFile noFallback
            (run noFallback [(demoEnv, Add demoData)] Unreadable)) + 1))
      = Some \<lparr>title = title demoData, author = author demoData, isbn = isbn demoData,
           publishedYear = publishedYear demoData, genre = genre demoData,
           description = description demoData, condition = condition demoData,
           book_id = toString (length (readBooksFromFile noFallback
             (run noFallback [(demoEnv, Add demoData)] Unreadable)) + 1),
           isCheckedOut = False, isActive = True, lastCheckedOutDate = None,
           addedDate = TimeValue (Day (now demoEnv) * msPerDay)\<rparr>"
    using m e a' t by blast
  then have "getBook noFallback ?f (toString (1 + 1))
      = Some \<lparr>title = title demoData, author = author demoData, isbn = isbn demoData,
           publishedYear = publishedYear demoData, genre = genre demoData,
           description = description demoData, condition = condition demoData,
           book_id = toString (1 + 1),
           isCheckedOut = False, isActive = True, lastCheckedOutDate = None,
           addedDate = TimeValue 1704067200000\<rparr>"
    by (simp only: r l d)
  then have "getBook noFallback ?f ''2'' = Some (newBook 1 demoData 1704067200000)"
    by (simp add: newBook_def eval_pad)
  then show ?thesis using a t e r rd by blast
qed

text \<open>
  Claim C3, as stated: \<open>updateBook\<close> on an existing id keeps \<open>addedDate\<close> and
  \<open>lastCheckedOutDate\<close> verbatim.  It fails on a store whose date has a time of day.
  Record 1 of the store below loads with \<open>addedDate\<close> 2024-01-01T10:00:00Z; after
  \<open>updateBook\<close> with the very data it already has, it loads with \<open>addedDate\<close>
  2024-01-01T00:00:00Z, because the whole collection is written back with date-only
  strings.
\<close>

theorem update_moves_addedDate:
  "getBook noFallback (Holds [timedStored]) ''1'' = Some (newBook 0 demoData 1704103200000)
   \<and> updateBook noFallback demoEnv ''1'' demoData (Holds [timedStored])
       = Inr (Holds [demoStored])
   \<and> getBook noFallback (Holds [demoStored]) ''1'' = Some (newBook 0 demoData 1704067200000)
   \<and> addedDate (newBook 0 demoData 1704067200000)
       \<noteq> addedDate (newBook 0 demoData 1704103200000)"
  by (simp add: eval_ops timedStored_def demoEnv_def)

text \<open>
  Claim C3, amended.  If no record has the id \<open>j\<close>, \<open>updateBook\<close> returns normally and
  leaves the store as it is, so that the collection loaded before and after is the
  same.  If the record \<open>b\<close> is the one with id \<open>i\<close> and \<open>updateBook\<close> returns, then
  the record with id \<open>i\<close> afterwards has title, author, isbn, publishedYear, genre,
  description and condition of the input, the id, \<open>isCheckedOut\<close> and \<open>isActive\<close> of
  \<open>b\<close> verbatim, and the \<open>addedDate\<close> and \<open>lastCheckedOutDate\<close> of \<open>b\<close> moved to
  the start of their UTC day (absent if it was absent); the two dates are verbatim too
  when the store was written by the program itself.
\<close>

theorem update_effect:
  "(getBook fb f j = None \<longrightarrow>
      updateBook fb e j dat f = Inr f
      \<and> readBooksFromFile fb (store_after f (updateBook fb e j dat f)) = readBooksFromFile fb f)
   \<and> (getBook fb f i = Some b \<and> updateBook fb e i dat f = Inr f' \<longrightarrow>
        (\<exists>b'. getBook fb f' i = Some b'
           \<and> title b' = title dat \<and> author b' = author dat \<and> isbn b' = isbn dat
           \<and> publishedYear b' = publishedYear dat \<and> genre b' = genre dat
           \<and> description b' = description dat \<and> condition b' = condition dat
           \<and> book_id b' = book_id b \<and> isCheckedOut b' = isCheckedOut b
           \<and> isActive b' = isActive b
           \<and> addedDate b' = dayStart (addedDate b)
           \<and> lastCheckedOutDate b' = map_option dayStart (lastCheckedOutDate b)
           \<and> (writeBooksToFile e0 bs0 = Inr f \<and> list_all bookInRange bs0 \<longrightarrow>
                addedDate b' = addedDate b
                \<and> lastCheckedOutDate b' = lastCheckedOutDate b)))"
proof -
  have missing: "updateBook fb e j dat f = Inr f
      \<and> readBooksFromFile fb (store_after f (updateBook fb e j dat f)) = readBooksFromFile fb f"
    if "getBook fb f j = None"
    using changeFirst_missing [OF that] by (simp add: updateBook_changeFirst store_after_def)
  have found: "\<exists>b'. getBook fb f' i = Some b'
           \<and> title b' = title dat \<and> author b' = author dat \<and> isbn b' = isbn dat
           \<and> publishedYear b' = publishedYear dat \<and> genre b' = genre dat
           \<and> description b' = description dat \<and> condition b' = condition dat
           \<and> book_id b' = book_id b \<and> isCheckedOut b' = isCheckedOut b
           \<and> isActive b' = isActive b
           \<and> addedDate b' = dayStart (addedDate b)
           \<and> lastCheckedOutDate b' = map_option dayStart (lastCheckedOutDate b)
           \<and> (writeBooksToFile e0 bs0 = Inr f \<and> list_all bookInRange bs0 \<longrightarrow>
                addedDate b' = addedDate b
                \<and> lastCheckedOutDate b' = lastCheckedOutDate b)"
    if g: "getBook fb f i = Some b" and u: "updateBook fb e i dat f = Inr f'"
  proof -
    let ?u = "updated b dat"
    let ?b' = "reviveBook fb (storedForm ?u)"
    have c: "changeFirst fb e i (\<lambda>b. updated b dat) f = Inr f'"
      using u by (simp add: updateBook_changeFirst)
    have id: "book_id ?u = i" using getBook_in_range(2) [OF g] by (simp add: updated_def)
    have s: "savable ?u" and r: "getBook fb f' i = Some ?b'"
      using changeFirst_changed [OF g c id] by simp_all
    have "bookInRange ?u"
      using getBook_in_range(1) [OF g] by (simp add: bookInRange_def updated_def)
    then have eq: "?b' = truncBook ?u" using s by (simp add: revive_storedForm)
    have al: "truncBook b = b" if "writeBooksToFile e0 bs0 = Inr f" "list_all bookInRange bs0"
      using dayStart_aligned [OF getBook_mem [OF g] that] .
    have "addedDate (truncBook b) = addedDate b
        \<and> lastCheckedOutDate (truncBook b) = lastCheckedOutDate b"
      if "writeBooksToFile e0 bs0 = Inr f" "list_all bookInRange bs0"
      using al [OF that] by simp
    then show ?thesis
      using r unfolding eq
      by (intro exI [of _ "truncBook ?u"]) (simp add: truncBook_sel updated_def)
  qed
  show ?thesis using missing found by blast
qed

theorem update_effect_witness:
  "getBook noFallback (Holds [demoStored]) ''2'' = None
   \<and> updateBook noFallback demoEnv ''2'' (demoData\<lparr>title := ''Emma''\<rparr>) (Holds [demoStored])
       = Inr (Holds [demoStored])
   \<and> getBook noFallback (Holds [demoStored]) ''1'' = Some (newBook 0 demoData 1704067200000)
   \<and> updateBook noFallback demoEnv ''1'' (demoData\<lparr>title := ''Emma''\<rparr>) (Holds [demoStored])
       = Inr (Holds [demoStored\<lparr>title := ''Emma''\<rparr>])
   \<and> writeBooksToFile demoEnv [newBook 0 demoData 1704103200000] = Inr (Holds [demoStored])
   \<and> list_all bookInRange [newBook 0 demoData 1704103200000]
   \<and> (\<exists>b'. getBook noFallback (Holds [demoStored\<lparr>title := ''Emma''\<rparr>]) ''1'' = Some b'
         \<and> title b' = ''Emma'' \<and> isCheckedOut b' = False
         \<and> addedDate b' = TimeValue 1704067200000 \<and> lastCheckedOutDate b' = None)"
proof -
  have a: "getBook noFallback (Holds [demoStored]) ''2'' = None"
    and b: "getBook noFallback (Holds [demoStored]) ''1'' = Some (newBook 0 demoData 1704067200000)"
    and c: "updateBook noFallback demoEnv ''1'' (demoData\<lparr>title := ''Emma''\<rparr>) (Holds [demoStored])
       = Inr (Holds [demoStored\<lparr>title := ''Emma''\<rparr>])"
    and w: "writeBooksToFile demoEnv [newBook 0 demoData 1704103200000] = Inr (Holds [demoStored])"
    by (simp_all add: eval_ops demoEnv_def)
  have r: "list_all bookInRange [newBook 0 demoData 1704103200000]"
    by (simp add: bookInRange_def dateInRange_def timeInRange_def maxTime_def newBook_def)
  note t = update_effect [where fb = noFallback and f = "Holds [demoStored]" and j = "''2''"
      and ?e0.0 = demoEnv and ?bs0.0 = "[newBook 0 demoData 1704103200000]"
      and e = demoEnv and dat = "demoData\<lparr>title := ''Emma''\<rparr>" and i = "''1''"
      and b = "newBook 0 demoData 1704067200000"
      and f' = "Holds [demoStored\<lparr>title := ''Emma''\<rparr>]"]
  have d: "updateBook noFallback demoEnv ''2'' (demoData\<lparr>title := ''Emma''\<rparr>) (Holds [demoStored])
      = Inr (Holds [demoStored])"
    using t a by blast
  obtain b' where b': "getBook noFallback (Holds [demoStored\<lparr>title := ''Emma''\<rparr>]) ''1'' = Some b'"
    "title b' = title (demoData\<lparr>title := ''Emma''\<rparr>)"
    "isCheckedOut b' = isCheckedOut (newBook 0 demoData 1704067200000)"
    "addedDate b' = addedDate (newBook 0 demoData 1704067200000)"
    "lastCheckedOutDate b' = lastCheckedOutDate (newBook 0 demoData 1704067200000)"
    using t b c w r by blast
  have "title b' = ''Emma''" "isCheckedOut b' = False"
    "addedDate b' = TimeValue 1704067200000" "lastCheckedOutDate b' = None"
    using b'(2-5) by (simp_all add: newBook_def)
  then show ?thesis using a b c d w r b'(1) by blast
qed

text \<open>
  Claim C4, as stated: \<open>markBookInactive\<close> leaves every field but \<open>isActive\<close>
  untouched.  It fails on a store whose date has a time of day: record 1 of the store
  below loads with \<open>addedDate\<close> 2024-01-01T10:00:00Z before the call and with
  2024-01-01T00:00:00Z after it.
\<close>

theorem setInactive_moves_addedDate:
  "getBook noFallback (Holds [timedStored]) ''1'' = Some (newBook 0 demoData 1704103200000)
   \<and> markBookInactive noFallback demoEnv ''1'' (Holds [timedStored])
       = Inr (Holds [demoStored\<lparr>isActive := False\<rparr>])
   \<and> getBook noFallback (Holds [demoStored\<lparr>isActive := False\<rparr>]) ''1''
       = Some ((newBook 0 demoData 1704067200000)\<lparr>isActive := False\<rparr>)
   \<and> addedDate ((newBook 0 demoData 1704067200000)\<lparr>isActive := False\<rparr>)
       \<noteq> addedDate (newBook 0 demoData 1704103200000)"
  by (simp add: eval_ops timedStored_def demoEnv_def)

text \<open>
  Claim C4, amended.  If the record \<open>b\<close> is the one with id \<open>i\<close> and
  \<open>markBookInactive\<close> returns, then \<open>getBook\<close> still returns a record for \<open>i\<close>; it
  has \<open>isActive = False\<close>, every other field of \<open>b\<close> untouched (\<open>isCheckedOut\<close> is
  not reset) but the two dates, which are moved to the start of their UTC day, and it is
  not in the result of \<open>getActiveBooks\<close>.  The two dates are untouched too when the
  store was written by the program itself.
\<close>

theorem setInactive_effect:
  assumes "getBook fb f i = Some b" "markBookInactive fb e i f = Inr f'"
  shows "\<exists>b'. getBook fb f' i = Some b' \<and> \<not> isActive b'
     \<and> b' \<notin> set (getActiveBooks fb f')
     \<and> isCheckedOut b' = isCheckedOut b
     \<and> title b' = title b \<and> author b' = author b \<and> isbn b' = isbn b
     \<and> publishedYear b' = publishedYear b \<and> genre b' = genre b
     \<and> description b' = description b \<and> condition b' = condition b
     \<and> book_id b' = book_id b
     \<and> addedDate b' = dayStart (addedDate b)
     \<and> lastCheckedOutDate b' = map_option dayStart (lastCheckedOutDate b)
     \<and> (writeBooksToFile e0 bs0 = Inr f \<and> list_all bookInRange bs0 \<longrightarrow>
          addedDate b' = addedDate b \<and> lastCheckedOutDate b' = lastCheckedOutDate b)"
proof -
  let ?u = "b\<lparr>isActive := False\<rparr>"
  let ?b' = "reviveBook fb (storedForm ?u)"
  have c: "changeFirst fb e i (\<lambda>b. b\<lparr>isActive := False\<rparr>) f = Inr f'"
    using assms(2) by (simp add: markBookInactive_changeFirst)
  have id: "book_id ?u = i" using getBook_in_range(2) [OF assms(1)] by simp
  have s: "savable ?u" and r: "getBook fb f' i = Some ?b'"
    using changeFirst_changed [OF assms(1) c id] by simp_all
  have "bookInRange ?u"
    using getBook_in_range(1) [OF assms(1)] by (simp add: bookInRange_def)
  then have eq: "?b' = truncBook ?u" using s by (simp add: revive_storedForm)
  have "truncBook ?u \<notin> set (getActiveBooks fb f')"
    by (simp add: getActiveBooks_def truncBook_sel)
  moreover have "addedDate (truncBook b) = addedDate b
      \<and> lastCheckedOutDate (truncBook b) = lastCheckedOutDate b"
    if "writeBooksToFile e0 bs0 = Inr f" "list_all bookInRange bs0"
    using dayStart_aligned [OF getBook_mem [OF assms(1)] that] by simp
  ultimately show ?thesis
    using r unfolding eq
    by (intro exI [of _ "truncBook ?u"]) (simp add: truncBook_sel)
qed

theorem setInactive_effect_witness:
  "getBook noFallback (Holds [demoStored]) ''1'' = Some (newBook 0 demoData 1704067200000)
   \<and> markBookInactive noFallback demoEnv ''1'' (Holds [demoStored])
       = Inr (Holds [demoStored\<lparr>isActive := False\<rparr>])
   \<and> writeBooksToFile demoEnv [newBook 0 demoData 1704103200000] = Inr (Holds [demoStored])
   \<and> list_all bookInRange [newBook 0 demoData 1704103200000]
   \<and> (\<exists>b'. getBook noFallback (Holds [demoStored\<lparr>isActive := False\<rparr>]) ''1'' = Some b'
         \<and> \<not> isActive b'
         \<and> b' \<notin> set (getActiveBooks noFallback (Holds [demoStored\<lparr>isActive := False\<rparr>]))
         \<and> isCheckedOut b' = False \<and> title b' = ''Dune''
         \<and> addedDate b' = TimeValue 1704067200000 \<and> lastCheckedOutDate b' = None)"
proof -
  have a: "getBook noFallback (Holds [demoStored]) ''1'' = Some (newBook 0 demoData 1704067200000)"
    and c: "markBookInactive noFallback demoEnv ''1'' (Holds [demoStored])
       = Inr (Holds [demoStored\<lparr>isActive := False\<rparr>])"
    and w: "writeBooksToFile demoEnv [newBook 0 demoData 1704103200000] = Inr (Holds [demoStored])"
    by (simp_all add: eval_ops demoEnv_def)
  have r: "list_all bookInRange [newBook 0 demoData 1704103200000]"
    by (simp add: bookInRange_def dateInRange_def timeInRange_def maxTime_def newBook_def)
  obtain b' where b': "getBook noFallback (Holds [demoStored\<lparr>isActive := False\<rparr>]) ''1'' = Some b'"
    "\<not> isActive b'"
    "b' \<notin> set (getActiveBooks noFallback (Holds [demoStored\<lparr>isActive := False\<rparr>]))"
    "isCheckedOut b' = isCheckedOut (newBook 0 demoData 1704067200000)"
    "title b' = title (newBook 0 demoData 1704067200000)"
    "addedDate b' = addedDate (newBook 0 demoData 1704067200000)"
    "lastCheckedOutDate b' = lastCheckedOutDate (newBook 0 demoData 1704067200000)"
    using setInactive_effect [OF a c, of demoEnv "[newBook 0 demoData 1704103200000]"] w r
    by blast
  have "isCheckedOut b' = False" "title b' = ''Dune''"
    "addedDate b' = TimeValue 1704067200000" "lastCheckedOutDate b' = None"
    using b'(4-7) by (simp_all add: newBook_def demoData_def)
  then show ?thesis using a c w r b'(1-3) by blast
qed

text \<open>
  Claim C5.  Error handling is asymmetric.  A backing store that cannot be read or
  parsed is loaded as the empty collection, and the queries return the empty results
  without an error (the read functions have no error result).  A write that fails makes
  \<open>writeBooksToFile\<close> raise, and the error reaches the caller of \<open>addBook\<close> and of
  every id-keyed mutation that found its record \<open>i\<close>.  An id-keyed mutation on an id
  \<open>j\<close> that no record has returns normally, with the store as it was, whether or not
  a write would have succeeded.
\<close>

theorem error_handling_asymmetric:
  "readBooksFromFile fb Unreadable = [] \<and> getBooks fb Unreadable = []
   \<and> getBook fb Unreadable i = None \<and> getActiveBooks fb Unreadable = []
   \<and> (\<not> write_ok e \<longrightarrow>
        writeBooksToFile e bs = Inl Failed_to_save_books
        \<and> addBook fb e dat f = Inl Failed_to_save_books)
   \<and> (\<not> write_ok e \<and> getBook fb f i \<noteq> None \<longrightarrow>
        updateBook fb e i dat f = Inl Failed_to_save_books
        \<and> toggleCheckoutStatus fb e i f = Inl Failed_to_save_books
        \<and> markBookInactive fb e i f = Inl Failed_to_save_books
        \<and> updateBookCondition fb e i c f = Inl Failed_to_save_books)
   \<and> (getBook fb f j = None \<longrightarrow>
        updateBook fb e' j dat f = Inr f
        \<and> toggleCheckoutStatus fb e' j f = Inr f
        \<and> markBookInactive fb e' j f = Inr f
        \<and> updateBookCondition fb e' j c f = Inr f)"
proof -
  have rd: "readBooksFromFile fb Unreadable = []" by (simp add: readBooksFromFile_def)
  have q: "getBooks fb Unreadable = []" "getBook fb Unreadable i = None"
    "getActiveBooks fb Unreadable = []"
    by (simp_all add: getBooks_def getBook_def getActiveBooks_def rd)
  have w: "writeBooksToFile e xs = Inl Failed_to_save_books" if "\<not> write_ok e" for xs
    using that by (simp add: writeBooksToFile_eq)
  have a: "addBook fb e dat f = Inl Failed_to_save_books" if "\<not> write_ok e"
    using w [OF that] by (simp add: addBook_def Let_def)
  have cf: "changeFirst fb e i g f = Inl Failed_to_save_books"
    if "\<not> write_ok e" "getBook fb f i \<noteq> None" for g
    using that w [OF that(1)]
    by (auto simp: changeFirst_result getBook_findIndex split: option.splits)
  have nf: "changeFirst fb e' j g f = Inr f" if "getBook fb f j = None" for g
    using that by (rule changeFirst_missing)
  show ?thesis
    using rd q w a cf nf
    by (simp add: updateBook_changeFirst toggle_changeFirst markBookInactive_changeFirst
        updateBookCondition_changeFirst)
qed

theorem error_handling_asymmetric_witness:
  "\<not> write_ok \<lparr>now = 0, write_ok = False\<rparr>
   \<and> getBook noFallback (Holds [demoStored]) ''1'' \<noteq> None
   \<and> getBook noFallback (Holds [demoStored]) ''2'' = None
   \<and> writeBooksToFile \<lparr>now = 0, write_ok = False\<rparr> [] = Inl Failed_to_save_books
   \<and> addBook noFallback \<lparr>now = 0, write_ok = False\<rparr> demoData (Holds [demoStored])
       = Inl Failed_to_save_books
   \<and> toggleCheckoutStatus noFallback \<lparr>now = 0, write_ok = False\<rparr> ''1'' (Holds [demoStored])
       = Inl Failed_to_save_books
   \<and> updateBook noFallback \<lparr>now = 0, write_ok = True\<rparr> ''2'' demoData (Holds [demoStored])
       = Inr (Holds [demoStored])"
proof -
  have g1: "getBook noFallback (Holds [demoStored]) ''1'' \<noteq> None"
    by (simp add: getBook_def readBooksFromFile_def reviveBook_def withDates_def demoStored_def)
  have g2: "getBook noFallback (Holds [demoStored]) ''2'' = None"
    by (simp add: getBook_def readBooksFromFile_def reviveBook_def withDates_def demoStored_def)
  have w: "\<not> write_ok \<lparr>now = 0, write_ok = False\<rparr>" by simp
  show ?thesis
    using g1 g2 w
      error_handling_asymmetric [of noFallback "''1''" "\<lparr>now = 0, write_ok = False\<rparr>" "[]"
        demoData "Holds [demoStored]" GOOD "''2''" "\<lparr>now = 0, write_ok = True\<rparr>"]
    by simp
qed

text \<open>
  Claim C6, as stated: for every content of the backing store, saving what was just
  loaded produces a store whose load equals the first load, dates compared by day.
  It fails for a store in which a record has no \<open>addedDate\<close>: the record loads with
  an invalid date, \<^verbatim>\<open>toISOString\<close> throws on it, and \<open>writeBooksToFile\<close> throws
  \<open>Failed_to_save_books\<close> although the write itself would succeed.  The save produces
  no store.
\<close>

theorem save_after_load_throws:
  "readBooksFromFile noFallback (Holds [demoStored\<lparr>addedDate := Absent\<rparr>])
     = [(newBook 0 demoData 0)\<lparr>addedDate := InvalidDate\<rparr>]
   \<and> write_ok demoEnv
   \<and> writeBooksToFile demoEnv
       (readBooksFromFile noFallback (Holds [demoStored\<lparr>addedDate := Absent\<rparr>]))
       = Inl Failed_to_save_books"
  by (simp add: readBooksFromFile_def reviveBook_def new_Date_def truthy_def withDates_def
      newBook_def demoData_def demoStored_def demoEnv_def toString_Suc_0
      writeBooksToFile_def bookToSave_def toISOString_def)

text \<open>
  Claim C6, amended.  The save of what was just loaded returns exactly when the write
  succeeds and no loaded date is invalid.  When it returns the store \<open>f'\<close>, the load of
  \<open>f'\<close> has the same records in the same order as the first load, equal with the dates
  compared by their UTC day: it is the first load with every date moved to the start
  of its day.  From then on the round trip is exact: every later save of the load of
  \<open>f'\<close> whose write succeeds returns \<open>f'\<close> itself.  The same holds of every store that
  the program has written, whatever collection \<open>bs\<close> of records with valid dates it
  was written from: when the write succeeds, the save of its load returns and gives
  that store again.
\<close>

theorem save_load_roundtrip:
  "((\<exists>f'. writeBooksToFile e (readBooksFromFile fb f) = Inr f')
      \<longleftrightarrow> write_ok e \<and> list_all savable (readBooksFromFile fb f))
   \<and> (writeBooksToFile e (readBooksFromFile fb f) = Inr f' \<longrightarrow>
        list_all2 book_day_eq (readBooksFromFile fb f') (readBooksFromFile fb f)
        \<and> readBooksFromFile fb f' = map truncBook (readBooksFromFile fb f)
        \<and> list_all savable (readBooksFromFile fb f')
        \<and> (write_ok e' \<longrightarrow> writeBooksToFile e' (readBooksFromFile fb f') = Inr f'))
   \<and> (list_all savable bs \<and> list_all bookInRange bs \<and> write_ok e \<longrightarrow>
        writeBooksToFile e (readBooksFromFile fb (Holds (map storedForm bs)))
          = Inr (Holds (map storedForm bs)))"
proof -
  let ?bs = "readBooksFromFile fb f"
  have r: "list_all bookInRange ?bs" by (simp add: list_all_iff read_in_range)
  have c1: "(\<exists>f'. writeBooksToFile e ?bs = Inr f') \<longleftrightarrow> write_ok e \<and> list_all savable ?bs"
    by (auto simp: writeBooksToFile_eq)
  have c2: "list_all2 book_day_eq (readBooksFromFile fb f') ?bs
      \<and> readBooksFromFile fb f' = map truncBook ?bs
      \<and> list_all savable (readBooksFromFile fb f')
      \<and> (write_ok e' \<longrightarrow> writeBooksToFile e' (readBooksFromFile fb f') = Inr f')"
    if w: "writeBooksToFile e ?bs = Inr f'"
  proof -
    have m: "readBooksFromFile fb f' = map truncBook ?bs" using read_after_write [OF w r] .
    have d: "list_all2 book_day_eq (readBooksFromFile fb f') ?bs"
      by (simp add: m list_all2_conv_all_nth book_day_eq_truncBook)
    have s: "list_all savable (readBooksFromFile fb f')"
      using write_success(1) [OF w] by (simp add: m list_all_iff savable_truncBook)
    have x: "writeBooksToFile e' (readBooksFromFile fb f') = Inr f'" if "write_ok e'"
      using write_read_written [OF w r that] .
    show ?thesis using m d s x by blast
  qed
  have c3: "writeBooksToFile e (readBooksFromFile fb (Holds (map storedForm bs)))
      = Inr (Holds (map storedForm bs))"
    if s: "list_all savable bs" and i: "list_all bookInRange bs" and k: "write_ok e"
  proof -
    have "writeBooksToFile e bs = Inr (Holds (map storedForm bs))"
      using s k by (simp add: writeBooksToFile_eq)
    then show ?thesis using i k by (rule write_read_written)
  qed
  show ?thesis using c1 c2 c3 by blast
qed

theorem save_load_roundtrip_witness:
  "readBooksFromFile noFallback (Holds [timedStored]) = [newBook 0 demoData 1704103200000]
   \<and> write_ok demoEnv
   \<and> writeBooksToFile demoEnv (readBooksFromFile noFallback (Holds [timedStored]))
       = Inr (Holds [demoStored])
   \<and> readBooksFromFile noFallback (Holds [demoStored]) = [newBook 0 demoData 1704067200000]
   \<and> list_all2 book_day_eq [newBook 0 demoData 1704067200000]
        [newBook 0 demoData 1704103200000]
   \<and> [newBook 0 demoData 1704067200000] = map truncBook [newBook 0 demoData 1704103200000]
   \<and> writeBooksToFile demoEnv (readBooksFromFile noFallback (Holds [demoStored]))
       = Inr (Holds [demoStored])
   \<and> list_all savable [newBook 0 demoData 1704103200000]
   \<and> list_all bookInRange [newBook 0 demoData 1704103200000]
   \<and> map storedForm [newBook 0 demoData 1704103200000] = [demoStored]"
proof -
  have l: "readBooksFromFile noFallback (Holds [timedStored])
      = [newBook 0 demoData 1704103200000]"
    by (simp add: eval_ops timedStored_def)
  have k: "write_ok demoEnv" by (simp add: demoEnv_def)
  have w: "writeBooksToFile demoEnv (readBooksFromFile noFallback (Holds [timedStored]))
      = Inr (Holds [demoStored])"
    by (simp only: l) (simp add: eval_ops demoEnv_def)
  have l': "readBooksFromFile noFallback (Holds [demoStored])
      = [newBook 0 demoData 1704067200000]"
    by (rule demo_read)
  have s: "list_all savable [newBook 0 demoData 1704103200000]"
    by (simp add: savable_def newBook_def)
  have i: "list_all bookInRange [newBook 0 demoData 1704103200000]"
    by (simp add: bookInRange_def dateInRange_def timeInRange_def maxTime_def newBook_def)
  have p: "map storedForm [newBook 0 demoData 1704103200000] = [demoStored]"
    by (simp add: storedForm_def eval_ops)
  note t = save_load_roundtrip [where fb = noFallback and e = demoEnv
      and f = "Holds [timedStored]" and f' = "Holds [demoStored]" and e' = demoEnv
      and bs = "[newBook 0 demoData 1704103200000]"]
  have d: "list_all2 book_day_eq (readBooksFromFile noFallback (Holds [demoStored]))
        (readBooksFromFile noFallback (Holds [timedStored]))"
    and m: "readBooksFromFile noFallback (Holds [demoStored])
        = map truncBook (readBooksFromFile noFallback (Holds [timedStored]))"
    and x: "writeBooksToFile demoEnv (readBooksFromFile noFallback (Holds [demoStored]))
        = Inr (Holds [demoStored])"
    using t w k by blast+
  have "writeBooksToFile demoEnv
      (readBooksFromFile noFallback (Holds (map storedForm [newBook 0 demoData 1704103200000])))
      = Inr (Holds (map storedForm [newBook 0 demoData 1704103200000]))"
    using t s i k by blast
  then have y: "writeBooksToFile demoEnv (readBooksFromFile noFallback (Holds [demoStored]))
      = Inr (Holds [demoStored])"
    by (simp only: p)
  show ?thesis
    using l k w l' d [unfolded l l'] m [unfolded l l'] x y s i p by blast
qed

text \<open>
  Claim C7, as stated: every date that \<open>writeBooksToFile\<close> writes is a string of the
  form \<^verbatim>\<open>YYYY-MM-DD\<close>.  It fails for a date outside the years 0000 to 9999: the
  first millisecond of the year 10000 is written as \<^verbatim>\<open>+010000-01-01\<close>, which does
  not have that form.
\<close>

theorem written_date_year_10000:
  "writeBooksToFile \<lparr>now = 0, write_ok = True\<rparr> [newBook 0 demoData 253402300800000]
     = Inr (Holds [demoStored\<lparr>addedDate := Str ''+010000-01-01''\<rparr>])
   \<and> \<not> storedDateOnly (Str ''+010000-01-01'')"
proof -
  have "YearFromTime 253402300800000 = 10000" "MonthFromTime 253402300800000 = 0"
    "DateFromTime 253402300800000 = 1"
    by code_simp+
  then have "isoDatePart 253402300800000 = ''+010000-01-01''"
    by (simp add: isoDatePart_def isoYear_def eval_pad)
  then have "writeBooksToFile \<lparr>now = 0, write_ok = True\<rparr> [newBook 0 demoData 253402300800000]
     = Inr (Holds [demoStored\<lparr>addedDate := Str ''+010000-01-01''\<rparr>])"
    by (simp add: writeBooksToFile_def bookToSave_def toISOString_def split_T_0_def
        newBook_def demoData_def demoStored_def JSON_stringify_def withDates_def eval_pad)
  moreover have "\<not> storedDateOnly (Str ''+010000-01-01'')"
    by (simp add: storedDateOnly_def isoDateOnly_def)
  ultimately show ?thesis by blast
qed

text \<open>
  Claim C7, amended.  In every collection that \<open>writeBooksToFile\<close> writes, a date in
  the years 0000 to 9999 is stored as a date-only string \<^verbatim>\<open>YYYY-MM-DD\<close> and any
  other date as a date-only string with an expanded year, \<^verbatim>\<open>+YYYYYY-MM-DD\<close> or
  \<^verbatim>\<open>-YYYYYY-MM-DD\<close>; neither has a time component.  A record without
  \<open>lastCheckedOutDate\<close> is stored as an object without that field (the field is
  \<open>Absent\<close>, not \<open>Null\<close>).
\<close>

theorem written_dates_form:
  assumes "writeBooksToFile e books = Inr f'" "k < length books"
  shows "\<exists>js. f' = Holds js \<and> length js = length books
     \<and> (if fourDigitYear (addedDate (books ! k))
         then storedDateOnly (addedDate (js ! k))
         else storedDateExpanded (addedDate (js ! k)))
     \<and> (case lastCheckedOutDate (books ! k) of
           None \<Rightarrow> lastCheckedOutDate (js ! k) = Absent
         | Some d \<Rightarrow>
             if fourDigitYear d then storedDateOnly (lastCheckedOutDate (js ! k))
             else storedDateExpanded (lastCheckedOutDate (js ! k)))"
proof -
  let ?b = "books ! k"
  have s: "list_all savable books" and f': "f' = Holds (map storedForm books)"
    using assms(1) by (auto simp: writeBooksToFile_eq split: if_splits)
  have sb: "savable ?b" using s assms(2) by (simp add: list_all_length)
  obtain t where t: "addedDate ?b = TimeValue t"
    "addedDate (storedForm ?b) = Str (isoDatePart t)"
    using storedForm_addedDate [OF sb] by blast
  have a: "if fourDigitYear (addedDate ?b) then storedDateOnly (addedDate (storedForm ?b))
      else storedDateExpanded (addedDate (storedForm ?b))"
    using stored_date_form [of t] by (simp add: t)
  have l: "case lastCheckedOutDate ?b of
      None \<Rightarrow> lastCheckedOutDate (storedForm ?b) = Absent
    | Some d \<Rightarrow>
        if fourDigitYear d then storedDateOnly (lastCheckedOutDate (storedForm ?b))
        else storedDateExpanded (lastCheckedOutDate (storedForm ?b))"
  proof (cases "lastCheckedOutDate ?b")
    case None
    then show ?thesis by (simp add: storedForm_lastCheckedOutDate_None [OF sb])
  next
    case (Some d)
    obtain u where u: "d = TimeValue u"
      "lastCheckedOutDate (storedForm ?b) = Str (isoDatePart u)"
      using storedForm_lastCheckedOutDate_Some [OF sb Some] by blast
    show ?thesis using stored_date_form [of u] by (simp add: Some u)
  qed
  have n: "map storedForm books ! k = storedForm ?b" using assms(2) by simp
  show ?thesis
    using a l unfolding n [symmetric]
    by (intro exI [of _ "map storedForm books"]) (simp add: f')
qed

theorem written_dates_form_witness:
  "writeBooksToFile \<lparr>now = 0, write_ok = True\<rparr> [newBook 0 demoData 1704103200000]
     = Inr (Holds [demoStored])
   \<and> (0 :: nat) < length [newBook 0 demoData 1704103200000]
   \<and> fourDigitYear (addedDate (newBook 0 demoData 1704103200000))
   \<and> storedDateOnly (addedDate demoStored)
   \<and> lastCheckedOutDate (newBook 0 demoData 1704103200000) = None
   \<and> lastCheckedOutDate demoStored = Absent"
proof -
  let ?b = "newBook 0 demoData 1704103200000"
  have ymd: "YearFromTime 1704103200000 = 2024" "MonthFromTime 1704103200000 = 0"
    "DateFromTime 1704103200000 = 1"
    by code_simp+
  then have "isoDatePart 1704103200000 = ''2024-01-01''"
    by (simp add: isoDatePart_def isoYear_def eval_pad)
  then have w: "writeBooksToFile \<lparr>now = 0, write_ok = True\<rparr> [?b] = Inr (Holds [demoStored])"
    by (simp add: writeBooksToFile_def bookToSave_def toISOString_def split_T_0_def
        newBook_def demoData_def demoStored_def JSON_stringify_def withDates_def eval_pad)
  have k: "(0 :: nat) < length [?b]" by simp
  have y: "fourDigitYear (addedDate ?b)" by (simp add: newBook_def fourDigitYear_def ymd)
  have n: "lastCheckedOutDate ?b = None" by (simp add: newBook_def)
  show ?thesis
    using written_dates_form [OF w k] w y n by auto
qed

text \<open>
  Claim C8.  Starting from an empty collection (a store that loads as \<open>[]\<close>), after
  every sequence of calls of \<open>addBook\<close>, \<open>updateBook\<close>, \<open>toggleCheckoutStatus\<close>,
  \<open>markBookInactive\<close> and \<open>updateBookCondition\<close> the ids of the records are pairwise
  distinct.  And from any store \<open>f\<close>, no call changes the id of an existing record: the
  ids of the collection after the call begin with the ids before it, in the same order.
\<close>

theorem ids_distinct_and_immutable:
  "(readBooksFromFile fb f0 = [] \<longrightarrow>
      distinct (map book_id (readBooksFromFile fb (run fb steps f0))))
   \<and> take (length (readBooksFromFile fb f))
        (map book_id (readBooksFromFile fb (store_after f (perform fb e a f))))
       = map book_id (readBooksFromFile fb f)"
proof -
  have "distinct (map book_id (readBooksFromFile fb (run fb steps f0)))"
    if "readBooksFromFile fb f0 = []"
  proof -
    have "map book_id (readBooksFromFile fb f0) = map toString [1..<Suc 0]"
      using that by simp
    then obtain m where
      "map book_id (readBooksFromFile fb (run fb steps f0)) = map toString [1..<Suc m]"
      using run_ids by blast
    then show ?thesis by (simp only: distinct_toString)
  qed
  moreover have "take (length (readBooksFromFile fb f))
        (map book_id (readBooksFromFile fb (store_after f (perform fb e a f))))
       = map book_id (readBooksFromFile fb f)"
    using perform_ids [of fb f e a] by (elim disjE) simp_all
  ultimately show ?thesis by blast
qed

theorem ids_distinct_and_immutable_witness:
  "readBooksFromFile noFallback Unreadable = []
   \<and> run noFallback [(\<lparr>now = 1704103200000, write_ok = True\<rparr>, Add demoData)] Unreadable
       = Holds [demoStored]
   \<and> distinct (map book_id (readBooksFromFile noFallback (Holds [demoStored])))"
proof -
  have r: "readBooksFromFile noFallback Unreadable = []" by (simp add: readBooksFromFile_def)
  have s: "run noFallback [(\<lparr>now = 1704103200000, write_ok = True\<rparr>, Add demoData)] Unreadable
      = Holds [demoStored]"
    by (simp add: demo_add store_after_def)
  show ?thesis
    using r s
      ids_distinct_and_immutable [of noFallback Unreadable
        "[(\<lparr>now = 1704103200000, write_ok = True\<rparr>, Add demoData)]"]
    by simp
qed

text \<open>
  Claim C9.  \<open>updateBook\<close>, \<open>toggleCheckoutStatus\<close> and \<open>updateBookCondition\<close> do not
  examine \<open>isActive\<close>: a record \<open>b\<close> with \<open>isActive = False\<close> is mutated exactly as an
  active one.

  Let \<open>b\<close> be the record with id \<open>i\<close>, and let it be inactive.  Each of the three
  actions returns whenever the write succeeds and no loaded date is invalid, as it
  does for an active record.  When \<open>updateBook\<close> returns, the record has the seven
  fields of the input; when \<open>toggleCheckoutStatus\<close> returns, its \<open>isCheckedOut\<close> is
  negated and its \<open>lastCheckedOutDate\<close> is present exactly when it is checked out;
  when \<open>updateBookCondition\<close> returns, its \<open>condition\<close> is the given one.  In each
  case the record is still inactive and its other fields are those of \<open>b\<close> (the
  dates that the action leaves alone at the start of their UTC day).

  That these are the changes an active record gets is the first part of the statement.
  Let \<open>relabelStore v f\<close> be the store \<open>f\<close> with the flag of the record at each
  position \<open>k\<close> replaced by \<open>v k\<close>.  Each of the three actions gives on
  \<open>relabelStore v f\<close> the result it gives on \<open>f\<close>, with the flags replaced in the same
  way: the same error, or the same records with the same changes.
\<close>

theorem mutations_ignore_isActive:
  "map isActive (readBooksFromFile fb (relabelStore v f))
     = map v [0..<length (readBooksFromFile fb f)]
   \<and> updateBook fb e i dat (relabelStore v f)
       = map_sum id (relabelStore v) (updateBook fb e i dat f)
   \<and> toggleCheckoutStatus fb e i (relabelStore v f)
       = map_sum id (relabelStore v) (toggleCheckoutStatus fb e i f)
   \<and> updateBookCondition fb e i c (relabelStore v f)
       = map_sum id (relabelStore v) (updateBookCondition fb e i c f)
   \<and> (getBook fb f i = Some b \<and> \<not> isActive b \<longrightarrow>
        (write_ok e \<and> list_all savable (readBooksFromFile fb f) \<longrightarrow>
           (\<exists>f'. updateBook fb e i dat f = Inr f')
           \<and> (\<exists>f'. toggleCheckoutStatus fb e i f = Inr f')
           \<and> (\<exists>f'. updateBookCondition fb e i c f = Inr f'))
        \<and> (updateBook fb e i dat f = Inr f1 \<longrightarrow>
             (\<exists>b'. getBook fb f1 i = Some b' \<and> \<not> isActive b'
                \<and> title b' = title dat \<and> author b' = author dat \<and> isbn b' = isbn dat
                \<and> publishedYear b' = publishedYear dat \<and> genre b' = genre dat
                \<and> description b' = description dat \<and> condition b' = condition dat
                \<and> book_id b' = book_id b \<and> isCheckedOut b' = isCheckedOut b
                \<and> addedDate b' = dayStart (addedDate b)
                \<and> lastCheckedOutDate b' = map_option dayStart (lastCheckedOutDate b)))
        \<and> (toggleCheckoutStatus fb e i f = Inr f2 \<longrightarrow>
             (\<exists>b'. getBook fb f2 i = Some b' \<and> \<not> isActive b'
                \<and> isCheckedOut b' = (\<not> isCheckedOut b)
                \<and> (lastCheckedOutDate b' \<noteq> None) = isCheckedOut b'
                \<and> title b' = title b \<and> author b' = author b \<and> isbn b' = isbn b
                \<and> publishedYear b' = publishedYear b \<and> genre b' = genre b
                \<and> description b' = description b \<and> condition b' = condition b
                \<and> book_id b' = book_id b
                \<and> addedDate b' = dayStart (addedDate b)))
        \<and> (updateBookCondition fb e i c f = Inr f3 \<longrightarrow>
             (\<exists>b'. getBook fb f3 i = Some b' \<and> \<not> isActive b'
                \<and> condition b' = c
                \<and> title b' = title b \<and> author b' = author b \<and> isbn b' = isbn b
                \<and> publishedYear b' = publishedYear b \<and> genre b' = genre b
                \<and> description b' = description b
                \<and> book_id b' = book_id b \<and> isCheckedOut b' = isCheckedOut b
                \<and> addedDate b' = dayStart (addedDate b)
                \<and> lastCheckedOutDate b' = map_option dayStart (lastCheckedOutDate b))))"
proof -
  have flags: "map isActive (relabelFrom v n bs) = map v [n..<n + length bs]"
    for n and bs :: "Book list"
  proof (induction bs arbitrary: n)
    case Nil
    show ?case by simp
  next
    case (Cons b bs)
    have "[n..<n + length (b # bs)] = n # [Suc n..<Suc n + length bs]"
      by (subst upt_rec) simp
    then show ?case by (simp only: relabelFrom.simps list.map Cons.IH) simp
  qed
  have c1: "map isActive (readBooksFromFile fb (relabelStore v f))
     = map v [0..<length (readBooksFromFile fb f)]"
    using flags [of 0 "readBooksFromFile fb f"] by (simp add: read_relabelStore)
  have c2: "updateBook fb e i dat (relabelStore v f)
       = map_sum id (relabelStore v) (updateBook fb e i dat f)"
    unfolding updateBook_changeFirst
    by (rule changeFirst_relabelStore) (rule updated_isActive)
  have c3: "toggleCheckoutStatus fb e i (relabelStore v f)
       = map_sum id (relabelStore v) (toggleCheckoutStatus fb e i f)"
    unfolding toggle_changeFirst
    by (rule changeFirst_relabelStore) (rule toggled_isActive)
  have c4: "updateBookCondition fb e i c (relabelStore v f)
       = map_sum id (relabelStore v) (updateBookCondition fb e i c f)"
    unfolding updateBookCondition_changeFirst
    by (rule changeFirst_relabelStore) simp
  have returns: "(\<exists>f'. updateBook fb e i dat f = Inr f')
      \<and> (\<exists>f'. toggleCheckoutStatus fb e i f = Inr f')
      \<and> (\<exists>f'. updateBookCondition fb e i c f = Inr f')"
    if g: "getBook fb f i = Some b" and w: "write_ok e"
      and s: "list_all savable (readBooksFromFile fb f)"
  proof -
    have sb: "savable b" using getBook_savable [OF g s] .
    have "savable (updated b dat)" "savable (toggled b (now e))" "savable (b\<lparr>condition := c\<rparr>)"
      using sb by (simp_all add: savable_updated savable_toggled) (simp add: savable_def)
    then show ?thesis
      unfolding updateBook_changeFirst toggle_changeFirst updateBookCondition_changeFirst
      using changeFirst_returns [OF g w s, of "\<lambda>b. updated b dat"]
        changeFirst_returns [OF g w s, of "\<lambda>b. toggled b (now e)"]
        changeFirst_returns [OF g w s, of "condition_update (\<lambda>_. c)"]
      by simp
  qed
  have upd: "\<exists>b'. getBook fb f1 i = Some b' \<and> \<not> isActive b'
      \<and> title b' = title dat \<and> author b' = author dat \<and> isbn b' = isbn dat
      \<and> publishedYear b' = publishedYear dat \<and> genre b' = genre dat
      \<and> description b' = description dat \<and> condition b' = condition dat
      \<and> book_id b' = book_id b \<and> isCheckedOut b' = isCheckedOut b
      \<and> addedDate b' = dayStart (addedDate b)
      \<and> lastCheckedOutDate b' = map_option dayStart (lastCheckedOutDate b)"
    if g: "getBook fb f i = Some b" and a: "\<not> isActive b"
      and u: "updateBook fb e i dat f = Inr f1"
  proof -
    have "changeFirst fb e i (\<lambda>b. updated b dat) f = Inr f1"
      using u by (simp add: updateBook_changeFirst)
    then have "getBook fb f1 i = Some (truncBook (updated b dat))"
      by (intro changeFirst_kept_dates [OF g]) (simp_all add: updated_def)
    then show ?thesis
      using a by (intro exI [of _ "truncBook (updated b dat)"]) (simp add: truncBook_sel updated_def)
  qed
  have tog: "\<exists>b'. getBook fb f2 i = Some b' \<and> \<not> isActive b'
      \<and> isCheckedOut b' = (\<not> isCheckedOut b)
      \<and> (lastCheckedOutDate b' \<noteq> None) = isCheckedOut b'
      \<and> title b' = title b \<and> author b' = author b \<and> isbn b' = isbn b
      \<and> publishedYear b' = publishedYear b \<and> genre b' = genre b
      \<and> description b' = description b \<and> condition b' = condition b
      \<and> book_id b' = book_id b
      \<and> addedDate b' = dayStart (addedDate b)"
    if g: "getBook fb f i = Some b" and a: "\<not> isActive b"
      and t: "toggleCheckoutStatus fb e i f = Inr f2"
  proof -
    obtain b' where b': "getBook fb f2 i = Some b'"
      "isCheckedOut b' = (\<not> isCheckedOut b)"
      "(lastCheckedOutDate b' \<noteq> None) = isCheckedOut b'"
      "title b' = title b" "author b' = author b" "isbn b' = isbn b"
      "publishedYear b' = publishedYear b" "genre b' = genre b"
      "description b' = description b" "condition b' = condition b"
      "book_id b' = book_id b" "isActive b' = isActive b"
      "addedDate b' = dayStart (addedDate b)"
      using toggle_once [OF g t] by blast
    then show ?thesis using a by (intro exI [of _ b']) simp
  qed
  have cnd: "\<exists>b'. getBook fb f3 i = Some b' \<and> \<not> isActive b'
      \<and> condition b' = c
      \<and> title b' = title b \<and> author b' = author b \<and> isbn b' = isbn b
      \<and> publishedYear b' = publishedYear b \<and> genre b' = genre b
      \<and> description b' = description b
      \<and> book_id b' = book_id b \<and> isCheckedOut b' = isCheckedOut b
      \<and> addedDate b' = dayStart (addedDate b)
      \<and> lastCheckedOutDate b' = map_option dayStart (lastCheckedOutDate b)"
    if g: "getBook fb f i = Some b" and a: "\<not> isActive b"
      and u: "updateBookCondition fb e i c f = Inr f3"
  proof -
    have "changeFirst fb e i (\<lambda>b. b\<lparr>condition := c\<rparr>) f = Inr f3"
      using u by (simp add: updateBookCondition_changeFirst)
    then have "getBook fb f3 i = Some (truncBook (b\<lparr>condition := c\<rparr>))"
      by (intro changeFirst_kept_dates [OF g]) simp_all
    then show ?thesis
      using a by (intro exI [of _ "truncBook (b\<lparr>condition := c\<rparr>)"]) (simp add: truncBook_sel)
  qed
  show ?thesis
    using c1 c2 c3 c4 returns upd tog cnd by blast
qed

theorem mutations_ignore_isActive_witness:
  "getBook noFallback (Holds [demoStored\<lparr>isActive := False\<rparr>]) ''1''
     = Some ((newBook 0 demoData 1704067200000)\<lparr>isActive := False\<rparr>)
   \<and> \<not> isActive ((newBook 0 demoData 1704067200000)\<lparr>isActive := False\<rparr>)
   \<and> write_ok demoEnv
   \<and> list_all savable (readBooksFromFile noFallback (Holds [demoStored\<lparr>isActive := False\<rparr>]))
   \<and> updateBook noFallback demoEnv ''1'' (demoData\<lparr>title := ''Emma''\<rparr>)
        (Holds [demoStored\<lparr>isActive := False\<rparr>])
       = Inr (Holds [demoStored\<lparr>title := ''Emma'', isActive := False\<rparr>])
   \<and> toggleCheckoutStatus noFallback demoEnv ''1'' (Holds [demoStored\<lparr>isActive := False\<rparr>])
       = Inr (Holds [demoStored\<lparr>isCheckedOut := True, isActive := False,
                                 lastCheckedOutDate := Str ''2024-01-01''\<rparr>])
   \<and> updateBookCondition noFallback demoEnv ''1'' POOR (Holds [demoStored\<lparr>isActive := False\<rparr>])
       = Inr (Holds [demoStored\<lparr>condition := POOR, isActive := False\<rparr>])
   \<and> (\<exists>b'. getBook noFallback (Holds [demoStored\<lparr>title := ''Emma'', isActive := False\<rparr>]) ''1''
           = Some b'
         \<and> \<not> isActive b' \<and> title b' = ''Emma'' \<and> isCheckedOut b' = False)
   \<and> (\<exists>b'. getBook noFallback
           (Holds [demoStored\<lparr>isCheckedOut := True, isActive := False,
                              lastCheckedOutDate := Str ''2024-01-01''\<rparr>]) ''1'' = Some b'
         \<and> \<not> isActive b' \<and> isCheckedOut b' \<and> lastCheckedOutDate b' \<noteq> None
         \<and> title b' = ''Dune'')
   \<and> (\<exists>b'. getBook noFallback (Holds [demoStored\<lparr>condition := POOR, isActive := False\<rparr>]) ''1''
           = Some b'
         \<and> \<not> isActive b' \<and> condition b' = POOR \<and> title b' = ''Dune'')
   \<and> relabelStore (\<lambda>k. True) (Holds [demoStored\<lparr>isActive := False\<rparr>]) = Holds [demoStored]
   \<and> updateBook noFallback demoEnv ''1'' (demoData\<lparr>title := ''Emma''\<rparr>) (Holds [demoStored])
       = Inr (relabelStore (\<lambda>k. True)
               (Holds [demoStored\<lparr>title := ''Emma'', isActive := False\<rparr>]))"
proof -
  let ?f = "Holds [demoStored\<lparr>isActive := False\<rparr>]"
  let ?b = "(newBook 0 demoData 1704067200000)\<lparr>isActive := False\<rparr>"
  let ?dat = "demoData\<lparr>title := ''Emma''\<rparr>"
  let ?f1 = "Holds [demoStored\<lparr>title := ''Emma'', isActive := False\<rparr>]"
  let ?f2 = "Holds [demoStored\<lparr>isCheckedOut := True, isActive := False,
                              lastCheckedOutDate := Str ''2024-01-01''\<rparr>]"
  let ?f3 = "Holds [demoStored\<lparr>condition := POOR, isActive := False\<rparr>]"
  have g: "getBook noFallback ?f ''1'' = Some ?b"
    and u: "updateBook noFallback demoEnv ''1'' ?dat ?f = Inr ?f1"
    and t: "toggleCheckoutStatus noFallback demoEnv ''1'' ?f = Inr ?f2"
    and c: "updateBookCondition noFallback demoEnv ''1'' POOR ?f = Inr ?f3"
    by (simp_all add: eval_ops demoEnv_def)
  have a: "\<not> isActive ?b" by simp
  have w: "write_ok demoEnv" by (simp add: demoEnv_def)
  have s: "list_all savable (readBooksFromFile noFallback ?f)"
    by (simp add: eval_ops savable_def)
  have r: "relabelStore (\<lambda>k. True) ?f = Holds [demoStored]"
    by (simp add: relabelStore_def demoStored_def)
  note m = mutations_ignore_isActive [where fb = noFallback and v = "\<lambda>k. True" and f = ?f
      and e = demoEnv and i = "''1''" and dat = ?dat and c = POOR and b = ?b
      and ?f1.0 = ?f1 and ?f2.0 = ?f2 and ?f3.0 = ?f3]
  obtain b1 where b1: "getBook noFallback ?f1 ''1'' = Some b1" "\<not> isActive b1"
    "title b1 = title ?dat" "isCheckedOut b1 = isCheckedOut ?b"
    using m g a u by blast
  obtain b2 where b2: "getBook noFallback ?f2 ''1'' = Some b2" "\<not> isActive b2"
    "isCheckedOut b2 = (\<not> isCheckedOut ?b)"
    "(lastCheckedOutDate b2 \<noteq> None) = isCheckedOut b2" "title b2 = title ?b"
    using m g a t by blast
  obtain b3 where b3: "getBook noFallback ?f3 ''1'' = Some b3" "\<not> isActive b3"
    "condition b3 = POOR" "title b3 = title ?b"
    using m g a c by blast
  have e1: "title b1 = ''Emma''" "isCheckedOut b1 = False"
    using b1(3,4) by (simp_all add: newBook_def)
  have e2: "isCheckedOut b2" "lastCheckedOutDate b2 \<noteq> None" "title b2 = ''Dune''"
    using b2(3-5) by (simp_all add: newBook_def demoData_def)
  have e3: "title b3 = ''Dune''" using b3(4) by (simp add: newBook_def demoData_def)
  have "updateBook noFallback demoEnv ''1'' ?dat (relabelStore (\<lambda>k. True) ?f)
      = map_sum id (relabelStore (\<lambda>k. True)) (updateBook noFallback demoEnv ''1'' ?dat ?f)"
    using m by blast
  then have tw: "updateBook noFallback demoEnv ''1'' ?dat (Holds [demoStored])
      = Inr (relabelStore (\<lambda>k. True) ?f1)"
    by (simp only: r u map_sum.simps)
  show ?thesis
    using g a w s u t c b1(1,2) e1 b2(1,2) e2 b3(1,2,3) e3 r tw by blast
qed

text \<open>
  Claim C10, as stated: a mutation keyed by an id leaves every record with another id
  unchanged.  It fails on a store whose date has a time of day.  In the store below,
  record 2 loads with \<open>addedDate\<close> 2024-01-01T10:00:00Z; after
  \<open>updateBookCondition\<close> on record 1, record 2 loads with 2024-01-01T00:00:00Z.
\<close>

theorem other_record_moved:
  "readBooksFromFile noFallback (Holds [demoStored, timedStored\<lparr>book_id := ''2''\<rparr>])
     = [newBook 0 demoData 1704067200000, newBook 1 demoData 1704103200000]
   \<and> updateBookCondition noFallback demoEnv ''1'' POOR
        (Holds [demoStored, timedStored\<lparr>book_id := ''2''\<rparr>])
       = Inr (Holds [demoStored\<lparr>condition := POOR\<rparr>, demoStored\<lparr>book_id := ''2''\<rparr>])
   \<and> readBooksFromFile noFallback
        (Holds [demoStored\<lparr>condition := POOR\<rparr>, demoStored\<lparr>book_id := ''2''\<rparr>])
       = [(newBook 0 demoData 1704067200000)\<lparr>condition := POOR\<rparr>,
          newBook 1 demoData 1704067200000]
   \<and> book_id (newBook 1 demoData 1704103200000) \<noteq> ''1''
   \<and> newBook 1 demoData 1704067200000 \<noteq> newBook 1 demoData 1704103200000"
  by (simp add: eval_ops timedStored_def demoEnv_def)

text \<open>
  Claim C10, amended.  A mutation other than \<open>addBook\<close> that returns keeps the number
  of records and the order of their ids, and leaves every record whose id differs from
  the given id unchanged up to the time of day of its dates (equal with the dates
  compared at day granularity).  \<open>addBook\<close>, when it returns, keeps the existing records
  in their order, in the same sense, and puts one record after them, with the id
  \<open>count + 1\<close>.  When the store was written by the program itself, the records with
  another id, and the existing records on \<open>addBook\<close>, are unchanged exactly.
\<close>

theorem mutation_frame:
  "(perform fb e a f = Inr f' \<and> target a = Some i \<longrightarrow>
      length (readBooksFromFile fb f') = length (readBooksFromFile fb f)
      \<and> map book_id (readBooksFromFile fb f') = map book_id (readBooksFromFile fb f)
      \<and> (\<forall>k < length (readBooksFromFile fb f).
            book_id (readBooksFromFile fb f ! k) \<noteq> i \<longrightarrow>
            book_day_eq (readBooksFromFile fb f' ! k) (readBooksFromFile fb f ! k)
            \<and> (writeBooksToFile e0 bs0 = Inr f \<and> list_all bookInRange bs0 \<longrightarrow>
                 readBooksFromFile fb f' ! k = readBooksFromFile fb f ! k)))
   \<and> (addBook fb e dat g = Inr g' \<longrightarrow>
        length (readBooksFromFile fb g') = Suc (length (readBooksFromFile fb g))
        \<and> map book_id (readBooksFromFile fb g')
            = map book_id (readBooksFromFile fb g)
                @ [toString (length (readBooksFromFile fb g) + 1)]
        \<and> (\<forall>k < length (readBooksFromFile fb g).
              book_day_eq (readBooksFromFile fb g' ! k) (readBooksFromFile fb g ! k)
              \<and> (writeBooksToFile e1 bs1 = Inr g \<and> list_all bookInRange bs1 \<longrightarrow>
                   readBooksFromFile fb g' ! k = readBooksFromFile fb g ! k)))"
proof -
  have keyed: "length (readBooksFromFile fb f') = length (readBooksFromFile fb f)
      \<and> map book_id (readBooksFromFile fb f') = map book_id (readBooksFromFile fb f)
      \<and> (\<forall>k < length (readBooksFromFile fb f).
            book_id (readBooksFromFile fb f ! k) \<noteq> i \<longrightarrow>
            book_day_eq (readBooksFromFile fb f' ! k) (readBooksFromFile fb f ! k)
            \<and> (writeBooksToFile e0 bs0 = Inr f \<and> list_all bookInRange bs0 \<longrightarrow>
                 readBooksFromFile fb f' ! k = readBooksFromFile fb f ! k))"
    if p: "perform fb e a f = Inr f'" and t: "target a = Some i"
  proof -
    obtain h where c: "changeFirst fb e i h f = Inr f'" and h: "\<And>b. book_id (h b) = book_id b"
    proof (cases a)
      case (Add d)
      then show ?thesis using t by simp
    next
      case (Update j d)
      then show ?thesis
        using p t that [of "\<lambda>b. updated b d"] by (simp add: updateBook_changeFirst updated_def)
    next
      case (Toggle j)
      then show ?thesis
        using p t that [of "\<lambda>b. toggled b (now e)"]
        by (simp add: toggle_changeFirst toggled_def Let_def)
    next
      case (SetInactive j)
      then show ?thesis
        using p t that [of "\<lambda>b. b\<lparr>isActive := False\<rparr>"]
        by (simp add: markBookInactive_changeFirst)
    next
      case (SetCondition j cnd)
      then show ?thesis
        using p t that [of "\<lambda>b. b\<lparr>condition := cnd\<rparr>"]
        by (simp add: updateBookCondition_changeFirst)
    qed
    have exact: "readBooksFromFile fb f' ! k = readBooksFromFile fb f ! k"
      if k: "k < length (readBooksFromFile fb f)"
        and ne: "book_id (readBooksFromFile fb f ! k) \<noteq> i"
        and w: "writeBooksToFile e0 bs0 = Inr f" and r: "list_all bookInRange bs0" for k
    proof -
      let ?bs = "readBooksFromFile fb f"
      have al: "truncBook (?bs ! k) = ?bs ! k"
        using dayStart_aligned [OF nth_mem [OF k] w r] .
      show ?thesis
      proof (cases "findIndex (\<lambda>b. book_id b = i) ?bs")
        case None
        then show ?thesis using c by (simp add: changeFirst_def)
      next
        case (Some j)
        then have w': "writeBooksToFile e (?bs[j := h (?bs ! j)]) = Inr f'"
          using c by (simp add: changeFirst_def Let_def)
        have "j \<noteq> k" using findIndex_Some [OF Some] ne by auto
        then have n: "?bs[j := h (?bs ! j)] ! k = ?bs ! k" by simp
        have "readBooksFromFile fb f' ! k = truncBook (?bs[j := h (?bs ! j)] ! k)"
          using k by (intro read_written_nth [OF w']) (simp_all add: n read_nth_in_range)
        then show ?thesis by (simp add: n al)
      qed
    qed
    show ?thesis
      using changeFirst_frame [OF c h] exact by blast
  qed
  have added: "length (readBooksFromFile fb g') = Suc (length (readBooksFromFile fb g))
        \<and> map book_id (readBooksFromFile fb g')
            = map book_id (readBooksFromFile fb g)
                @ [toString (length (readBooksFromFile fb g) + 1)]
        \<and> (\<forall>k < length (readBooksFromFile fb g).
              book_day_eq (readBooksFromFile fb g' ! k) (readBooksFromFile fb g ! k)
              \<and> (writeBooksToFile e1 bs1 = Inr g \<and> list_all bookInRange bs1 \<longrightarrow>
                   readBooksFromFile fb g' ! k = readBooksFromFile fb g ! k))"
    if a: "addBook fb e dat g = Inr g'"
  proof -
    let ?bs = "readBooksFromFile fb g"
    let ?new = "newBook (length ?bs) dat (now e)"
    have w: "writeBooksToFile e (?bs @ [?new]) = Inr g'"
      using a by (simp add: addBook_def Let_def)
    have ids: "map book_id (readBooksFromFile fb g') = map book_id ?bs @ [toString (length ?bs + 1)]"
      using addBook_ids [of fb g e dat] a by (simp add: store_after_def)
    have len: "length (readBooksFromFile fb g') = Suc (length ?bs)"
      using arg_cong [OF ids, of length] by simp
    have d: "book_day_eq (readBooksFromFile fb g' ! k) (?bs ! k)" if "k < length ?bs" for k
      using read_written_day_eq [OF w, of k fb] that
      by (simp add: nth_append read_nth_in_range)
    have x: "readBooksFromFile fb g' ! k = ?bs ! k"
      if k: "k < length ?bs" and w1: "writeBooksToFile e1 bs1 = Inr g"
        and r1: "list_all bookInRange bs1" for k
    proof -
      have "readBooksFromFile fb g' ! k = truncBook ((?bs @ [?new]) ! k)"
        using k by (intro read_written_nth [OF w]) (simp_all add: nth_append read_nth_in_range)
      then show ?thesis
        using k dayStart_aligned [OF nth_mem [OF k] w1 r1] by (simp add: nth_append)
    qed
    show ?thesis using ids len d x by blast
  qed
  show ?thesis using keyed added by blast
qed

theorem mutation_frame_witness:
  "perform noFallback demoEnv (SetCondition ''1'' POOR)
      (Holds [demoStored, demoStored\<lparr>book_id := ''2''\<rparr>])
     = Inr (Holds [demoStored\<lparr>condition := POOR\<rparr>, demoStored\<lparr>book_id := ''2''\<rparr>])
   \<and> target (SetCondition ''1'' POOR) = Some ''1''
   \<and> (1 :: nat) < length (readBooksFromFile noFallback
         (Holds [demoStored, demoStored\<lparr>book_id := ''2''\<rparr>]))
   \<and> book_id (readBooksFromFile noFallback
         (Holds [demoStored, demoStored\<lparr>book_id := ''2''\<rparr>]) ! 1) \<noteq> ''1''
   \<and> writeBooksToFile demoEnv
         [newBook 0 demoData 1704103200000, newBook 1 demoData 1704103200000]
       = Inr (Holds [demoStored, demoStored\<lparr>book_id := ''2''\<rparr>])
   \<and> list_all bookInRange
         [newBook 0 demoData 1704103200000, newBook 1 demoData 1704103200000]
   \<and> readBooksFromFile noFallback
         (Holds [demoStored\<lparr>condition := POOR\<rparr>, demoStored\<lparr>book_id := ''2''\<rparr>]) ! 1
       = readBooksFromFile noFallback (Holds [demoStored, demoStored\<lparr>book_id := ''2''\<rparr>]) ! 1
   \<and> addBook noFallback demoEnv demoData (Holds [demoStored])
       = Inr (Holds [demoStored, demoStored\<lparr>book_id := ''2''\<rparr>])
   \<and> (0 :: nat) < length (readBooksFromFile noFallback (Holds [demoStored]))
   \<and> map book_id (readBooksFromFile noFallback (Holds [demoStored, demoStored\<lparr>book_id := ''2''\<rparr>]))
       = map book_id (readBooksFromFile noFallback (Holds [demoStored])) @ [''2'']
   \<and> writeBooksToFile demoEnv [newBook 0 demoData 1704103200000] = Inr (Holds [demoStored])
   \<and> list_all bookInRange [newBook 0 demoData 1704103200000]
   \<and> readBooksFromFile noFallback (Holds [demoStored, demoStored\<lparr>book_id := ''2''\<rparr>]) ! 0
       = readBooksFromFile noFallback (Holds [demoStored]) ! 0"
proof -
  let ?f = "Holds [demoStored, demoStored\<lparr>book_id := ''2''\<rparr>]"
  let ?f' = "Holds [demoStored\<lparr>condition := POOR\<rparr>, demoStored\<lparr>book_id := ''2''\<rparr>]"
  let ?bs0 = "[newBook 0 demoData 1704103200000, newBook 1 demoData 1704103200000]"
  have p: "perform noFallback demoEnv (SetCondition ''1'' POOR) ?f = Inr ?f'"
    and t: "target (SetCondition ''1'' POOR) = Some ''1''"
    and k: "(1 :: nat) < length (readBooksFromFile noFallback ?f)"
    and n: "book_id (readBooksFromFile noFallback ?f ! 1) \<noteq> ''1''"
    and w: "writeBooksToFile demoEnv ?bs0 = Inr ?f"
    and a: "addBook noFallback demoEnv demoData (Holds [demoStored]) = Inr ?f"
    and l: "length (readBooksFromFile noFallback (Holds [demoStored])) = 1"
    by (simp_all add: eval_ops demoEnv_def)
  have k0: "(0 :: nat) < length (readBooksFromFile noFallback (Holds [demoStored]))"
    by (simp add: l)
  have r: "list_all bookInRange ?bs0"
    by (simp add: bookInRange_def dateInRange_def timeInRange_def maxTime_def newBook_def)
  note m = mutation_frame [where fb = noFallback and e = demoEnv
      and a = "SetCondition ''1'' POOR" and f = ?f and f' = ?f'
      and i = "''1''" and ?e0.0 = demoEnv and ?bs0.0 = ?bs0
      and dat = demoData and g = "Holds [demoStored]" and g' = ?f
      and ?e1.0 = demoEnv and ?bs1.0 = "[newBook 0 demoData 1704103200000]"]
  have x: "readBooksFromFile noFallback ?f' ! 1 = readBooksFromFile noFallback ?f ! 1"
    using m p t k n w r by blast
  have i: "map book_id (readBooksFromFile noFallback ?f)
       = map book_id (readBooksFromFile noFallback (Holds [demoStored]))
           @ [toString (length (readBooksFromFile noFallback (Holds [demoStored])) + 1)]"
    using m a k0 by blast
  have w1: "writeBooksToFile demoEnv [newBook 0 demoData 1704103200000] = Inr (Holds [demoStored])"
    by (simp add: eval_ops demoEnv_def)
  have r1: "list_all bookInRange [newBook 0 demoData 1704103200000]"
    by (simp add: bookInRange_def dateInRange_def timeInRange_def maxTime_def newBook_def)
  have d: "readBooksFromFile noFallback ?f ! 0
      = readBooksFromFile noFallback (Holds [demoStored]) ! 0"
    using m a k0 w1 r1 by blast
  have "toString (length (readBooksFromFile noFallback (Holds [demoStored])) + 1) = ''2''"
    by (simp add: l eval_pad)
  then show ?thesis using p t k n w r x a k0 i d w1 r1 by simp
qed

end
